theory Spec2Isabelle
  imports Main "HOL-Library.Word" "HOL-Library.Signed_Division"
begin

unbundle bit_operations_syntax

section \<open>Machine types of the AT90CAN64 firmware\<close>

text \<open>
  The firmware is compiled for an 8-bit AVR (AT90CAN64): \<^verbatim>\<open>int\<close>, \<^verbatim>\<open>short\<close> and
  \<^verbatim>\<open>unsigned short\<close> are 16 bits wide. The header compiler.h, which is not part of the
  source tree, supplies the names \<^verbatim>\<open>U8\<close>, \<^verbatim>\<open>U16\<close> and \<^verbatim>\<open>S8\<close>; the names fix width and
  signedness (unsigned 8 bit, unsigned 16 bit, signed 8 bit). All of them are words here.
  A word read as a signed C value is read with \<open>sint\<close> and compared with \<open><s\<close>; a word
  read as an unsigned C value is read with \<open>uint\<close> and compared with \<open><\<close>.

  An operand of type \<^verbatim>\<open>U16\<close> cannot be promoted to the 16-bit \<^verbatim>\<open>int\<close>, so it is promoted
  to \<^verbatim>\<open>unsigned int\<close>, and every arithmetic operation or comparison that has a \<^verbatim>\<open>U16\<close>
  operand is carried out on unsigned 16-bit values: \<open>+\<close>, \<open>-\<close>, \<open>*\<close>, \<open>div\<close>, \<open>\<le>\<close> of
  \<open>16 word\<close>. Operands of type \<^verbatim>\<open>U8\<close>, \<^verbatim>\<open>S8\<close> and \<^verbatim>\<open>uint8_t\<close> are promoted to \<^verbatim>\<open>int\<close>.
\<close>

type_synonym U8 = "8 word"
type_synonym S8 = "8 word"
type_synonym U16 = "16 word"
type_synonym c_int = "16 word"
type_synonym c_short = "16 word"

text \<open>Division of two \<^verbatim>\<open>int\<close> operands truncates towards zero.\<close>

definition int_div :: "c_int \<Rightarrow> c_int \<Rightarrow> c_int" where
  "int_div a b = word_of_int (sint a sdiv sint b)"

text \<open>Faults of the C program that the model keeps as values.\<close>

datatype fault = OutOfBounds int | DivisionByZero

definition bind :: "fault + 'a \<Rightarrow> ('a \<Rightarrow> fault + 'b) \<Rightarrow> fault + 'b" where
  "bind m f = (case m of Inl e \<Rightarrow> Inl e | Inr v \<Rightarrow> f v)"

section \<open>Data model\<close>

text \<open>
  \<^verbatim>\<open>enum ADCs\<close>, \<^verbatim>\<open>enum Page\<close>, the control bits and \<^verbatim>\<open>enum Buttons\<close>, \<^verbatim>\<open>enum Sliders\<close>.
  The fields of the two structs are prefixed (\<open>b_\<close>, \<open>s_\<close>), since both structs have
  fields \<^verbatim>\<open>x\<close>, \<^verbatim>\<open>y\<close>, \<^verbatim>\<open>width\<close>, \<^verbatim>\<open>colour\<close> and \<^verbatim>\<open>page\<close>.
\<close>

definition V_BATT :: U8 where "V_BATT = 0"
definition LEFT_X :: U8 where "LEFT_X = 1"
definition LEFT_Y :: U8 where "LEFT_Y = 2"
definition RIGHT_X :: U8 where "RIGHT_X = 3"
definition RIGHT_Y :: U8 where "RIGHT_Y = 4"

definition MAIN_PAGE :: U8 where "MAIN_PAGE = 0"

definition WIGGLE_BIT :: U8 where "WIGGLE_BIT = 1"
definition HIGH_STEP_BIT :: U8 where "HIGH_STEP_BIT = 2"
definition HIGH_BODY_BIT :: U8 where "HIGH_BODY_BIT = 4"
definition QUICK_STEP_BIT :: U8 where "QUICK_STEP_BIT = 8"
definition RIPPLE_BIT :: U8 where "RIPPLE_BIT = 16"

definition BLACK :: U16 where "BLACK = 0"
definition RED :: U16 where "RED = 63488"
definition GREEN :: U16 where "GREEN = 2016"
definition BLUE :: U16 where "BLUE = 31"

record Button =
  b_x :: U16
  b_y :: U16
  b_width :: U16
  b_colour :: U16
  b_text :: string
  highlighted :: bool
  selected :: bool
  needsRedraw :: bool
  b_page :: U8

definition NONE :: S8 where "NONE = - 1"
definition WALK_MODE :: S8 where "WALK_MODE = 0"
definition WIGGLE_MODE :: S8 where "WIGGLE_MODE = 1"
definition TRIPOD_GAIT :: S8 where "TRIPOD_GAIT = 2"
definition RIPPLE_GAIT :: S8 where "RIPPLE_GAIT = 3"
definition LOW_BODY :: S8 where "LOW_BODY = 4"
definition HIGH_BODY :: S8 where "HIGH_BODY = 5"
definition LOW_STEP :: S8 where "LOW_STEP = 6"
definition HIGH_STEP :: S8 where "HIGH_STEP = 7"
definition LONG_STEP :: S8 where "LONG_STEP = 8"
definition QUICK_STEP :: S8 where "QUICK_STEP = 9"
definition RED_EYES :: S8 where "RED_EYES = 10"
definition GREEN_EYES :: S8 where "GREEN_EYES = 11"
definition BLUE_EYES :: S8 where "BLUE_EYES = 12"
definition NUM_BUTTONS :: nat where "NUM_BUTTONS = 13"

record Slider =
  s_x :: U16
  s_y :: U16
  s_width :: U16
  s_colour :: U16
  s_value :: S8
  oldValue :: S8
  s_page :: U8

definition FRONT_SERVO :: nat where "FRONT_SERVO = 0"
definition BACK_SERVO :: nat where "BACK_SERVO = 1"
definition NUM_SLIDERS :: nat where "NUM_SLIDERS = 2"

text \<open>
  The global variables of the program, as one record. The arrays \<^verbatim>\<open>buttons\<close> and
  \<^verbatim>\<open>sliders\<close> are lists of \<open>NUM_BUTTONS\<close> and \<open>NUM_SLIDERS\<close> elements. The field \<open>tx\<close> is
  not a variable of the program: it records the bytes written to the UART data register
  \<^verbatim>\<open>UDR1\<close>, oldest first. The field \<open>adcReads\<close> counts the conversions made so far, so
  that each call of \<^verbatim>\<open>ReadADC\<close> can get a fresh sample from the environment.
\<close>

record state =
  buttons :: "Button list"
  touchedButton :: S8
  sliders :: "Slider list"
  ticks :: c_short
  displayBrightness :: c_int
  displayNeedsFullRedraw :: bool
  currentPage :: U8
  touchTimer :: c_short
  touchX :: c_int
  touchY :: c_int
  buttonPressed :: S8
  touchedSlider :: S8
  controlBits :: U8
  left_x :: U8
  left_y :: U8
  right_x :: U8
  right_y :: U8
  joystick_command_character :: c_int
  controllerSoC :: c_int
  hexapodSoC :: c_int
  tx :: "U8 list"
  adcReads :: nat

definition wf_state :: "state \<Rightarrow> bool" where
  "wf_state s = (length (buttons s) = NUM_BUTTONS \<and> length (sliders s) = NUM_SLIDERS)"

text \<open>
  Objects with static storage duration start as zero unless they have an initialiser;
  \<open>boot\<close> is the state when \<^verbatim>\<open>main\<close> is entered.
\<close>

definition zero_Button :: Button where
  "zero_Button = \<lparr>b_x = 0, b_y = 0, b_width = 0, b_colour = 0, b_text = [],
     highlighted = False, selected = False, needsRedraw = False, b_page = 0\<rparr>"

definition zero_Slider :: Slider where
  "zero_Slider = \<lparr>s_x = 0, s_y = 0, s_width = 0, s_colour = 0, s_value = 0,
     oldValue = 0, s_page = 0\<rparr>"

definition boot :: state where
  "boot = \<lparr>buttons = replicate NUM_BUTTONS zero_Button, touchedButton = NONE,
     sliders = replicate NUM_SLIDERS zero_Slider, ticks = 0, displayBrightness = 0,
     displayNeedsFullRedraw = True, currentPage = MAIN_PAGE, touchTimer = 0,
     touchX = 0, touchY = 0, buttonPressed = - 1, touchedSlider = - 1,
     controlBits = 0, left_x = 0, left_y = 0, right_x = 0, right_y = 0,
     joystick_command_character = 99, controllerSoC = 100, hexapodSoC = 100,
     tx = [], adcReads = 0\<rparr>"

section \<open>Array access\<close>

text \<open>
  An index into \<^verbatim>\<open>buttons\<close> is a C integer. Inside the array the element is read or
  written; outside it the access is a fault of the model (in C the behaviour is
  undefined).
\<close>

definition button_at :: "Button list \<Rightarrow> int \<Rightarrow> fault + Button" where
  "button_at bs i =
     (if 0 \<le> i \<and> i < int NUM_BUTTONS then Inr (bs ! nat i) else Inl (OutOfBounds i))"

definition button_upd :: "int \<Rightarrow> (Button \<Rightarrow> Button) \<Rightarrow> state \<Rightarrow> fault + state" where
  "button_upd i f s =
     (if 0 \<le> i \<and> i < int NUM_BUTTONS
      then Inr (s\<lparr>buttons := (buttons s)[nat i := f (buttons s ! nat i)]\<rparr>)
      else Inl (OutOfBounds i))"

definition slider_upd :: "int \<Rightarrow> (Slider \<Rightarrow> Slider) \<Rightarrow> state \<Rightarrow> fault + state" where
  "slider_upd i f s =
     (if 0 \<le> i \<and> i < int NUM_SLIDERS
      then Inr (s\<lparr>sliders := (sliders s)[nat i := f (sliders s ! nat i)]\<rparr>)
      else Inl (OutOfBounds i))"

section \<open>Hit tests\<close>

text \<open>
  \<^verbatim>\<open>ButtonTouched\<close> and \<^verbatim>\<open>SliderTouched\<close>. \<^verbatim>\<open>touchX\<close> and \<^verbatim>\<open>touchY\<close> are \<^verbatim>\<open>int\<close>, the
  geometry is \<^verbatim>\<open>U16\<close>: the four comparisons are unsigned, and so is \<^verbatim>\<open>width/2\<close>.
\<close>

definition ButtonTouched :: "state \<Rightarrow> Button \<Rightarrow> bool" where
  "ButtonTouched s button =
     (b_x button - b_width button div 2 \<le> touchX s
      \<and> touchX s \<le> b_x button + b_width button div 2
      \<and> b_y button \<le> touchY s \<and> touchY s \<le> b_y button + 32
      \<and> currentPage s = b_page button)"

definition SliderTouched :: "state \<Rightarrow> Slider \<Rightarrow> bool" where
  "SliderTouched s slider =
     (s_x slider - s_width slider div 2 \<le> touchX s
      \<and> touchX s \<le> s_x slider + s_width slider div 2
      \<and> s_y slider \<le> touchY s \<and> touchY s \<le> s_y slider + 32
      \<and> currentPage s = s_page slider)"

section \<open>Widget initialisation and selection\<close>

definition InitialiseButton ::
  "U8 \<Rightarrow> U16 \<Rightarrow> U16 \<Rightarrow> U16 \<Rightarrow> U16 \<Rightarrow> string \<Rightarrow> bool \<Rightarrow> state \<Rightarrow> fault + state" where
  "InitialiseButton button x y width colour text sel s =
     button_upd (uint button)
       (\<lambda>b. b\<lparr>b_x := x, b_y := y, b_width := width, b_colour := colour, b_text := text,
              highlighted := False, selected := sel, needsRedraw := True,
              b_page := MAIN_PAGE\<rparr>) s"

definition InitialiseSlider ::
  "U8 \<Rightarrow> U16 \<Rightarrow> U16 \<Rightarrow> U16 \<Rightarrow> U16 \<Rightarrow> S8 \<Rightarrow> U8 \<Rightarrow> state \<Rightarrow> fault + state" where
  "InitialiseSlider slider x y width colour val page s =
     slider_upd (uint slider)
       (\<lambda>sl. sl\<lparr>s_x := x, s_y := y, s_width := width, s_colour := colour,
                s_value := val, oldValue := - 1, s_page := page\<rparr>) s"

text \<open>
  \<^verbatim>\<open>SelectButton\<close>: the writes to \<^verbatim>\<open>buttons[newButton]\<close> and \<^verbatim>\<open>buttons[oldButton]\<close> are
  unconditional; only \<^verbatim>\<open>otherOldButton\<close> is compared with \<^verbatim>\<open>NONE\<close>.
\<close>

definition SelectButton :: "S8 \<Rightarrow> S8 \<Rightarrow> S8 \<Rightarrow> state \<Rightarrow> fault + state" where
  "SelectButton newButton oldButton otherOldButton s =
     bind (button_upd (sint newButton) (\<lambda>b. b\<lparr>selected := True, needsRedraw := True\<rparr>) s)
       (\<lambda>s1. bind (button_upd (sint oldButton)
                     (\<lambda>b. b\<lparr>selected := False, needsRedraw := True\<rparr>) s1)
          (\<lambda>s2. if otherOldButton \<noteq> NONE
                 then button_upd (sint otherOldButton)
                        (\<lambda>b. b\<lparr>selected := False, needsRedraw := True\<rparr>) s2
                 else Inr s2))"

section \<open>Touch handling (timer 1 overflow interrupt, about 30 Hz)\<close>

text \<open>
  The two loops of \<^verbatim>\<open>HandleTouchDown\<close> for \<^verbatim>\<open>touchTimer == 3\<close>: every index is visited
  in increasing order and a passing hit test overwrites the armed index.
\<close>

definition armButton :: "nat \<Rightarrow> state \<Rightarrow> state" where
  "armButton n s =
     (if ButtonTouched s (buttons s ! n) then s\<lparr>touchedButton := of_nat n\<rparr> else s)"

definition armSlider :: "nat \<Rightarrow> state \<Rightarrow> state" where
  "armSlider n s =
     (if SliderTouched s (sliders s ! n) then s\<lparr>touchedSlider := of_nat n\<rparr> else s)"

text \<open>
  The body of the drag loop of \<^verbatim>\<open>HandleTouchDown\<close>. \<^verbatim>\<open>usableWidth\<close> is an \<^verbatim>\<open>int\<close>, so
  \<^verbatim>\<open>usableWidth/2\<close> is a signed division. Every other operation of the percentage has an
  unsigned 16-bit operand: the subtractions, the product and the quotient are unsigned
  and wrap around. The quotient is then stored in the \<^verbatim>\<open>S8\<close> field \<^verbatim>\<open>value\<close>, which keeps
  its low 8 bits, and the two comparisons that clamp read that field.
\<close>

definition slider_percentage :: "c_int \<Rightarrow> Slider \<Rightarrow> fault + S8" where
  "slider_percentage tX slider =
     (let usableWidth = s_width slider - 16 in
      if usableWidth = 0 then Inl DivisionByZero
      else Inr (ucast ((100 * (tX - (s_x slider - int_div usableWidth 2))) div usableWidth)))"

definition clamp_percentage :: "S8 \<Rightarrow> S8" where
  "clamp_percentage v =
     (let v1 = (if v <s 0 then 0 else v) in if 100 <s v1 then 100 else v1)"

definition dragSlider :: "nat \<Rightarrow> state \<Rightarrow> fault + state" where
  "dragSlider n s =
     (let slider = sliders s ! n in
      if SliderTouched s slider \<and> sint (touchedSlider s) = int n
      then bind (slider_percentage (touchX s) slider)
             (\<lambda>v. Inr (s\<lparr>sliders := (sliders s)[n := slider\<lparr>s_value := clamp_percentage v\<rparr>]\<rparr>))
      else Inr s)"

fun forEach :: "nat list \<Rightarrow> (nat \<Rightarrow> state \<Rightarrow> fault + state) \<Rightarrow> state \<Rightarrow> fault + state" where
  "forEach [] body s = Inr s"
| "forEach (n # ns) body s = bind (body n s) (forEach ns body)"

text \<open>
  \<^verbatim>\<open>HandleTouchDown\<close>; the arguments \<open>x\<close> and \<open>y\<close> are what \<^verbatim>\<open>Touch_GetX\<close> and
  \<^verbatim>\<open>Touch_GetY\<close> return.
\<close>

definition HandleTouchDown :: "U16 \<Rightarrow> U16 \<Rightarrow> state \<Rightarrow> fault + state" where
  "HandleTouchDown x y s0 =
     (let s = s0\<lparr>touchX := x, touchY := y\<rparr> in
      if touchTimer s = 3
      then Inr (fold armSlider [0..<NUM_SLIDERS] (fold armButton [0..<NUM_BUTTONS] s))
      else if 3 <s touchTimer s then forEach [0..<NUM_SLIDERS] dragSlider s
      else Inr s)"

text \<open>
  \<^verbatim>\<open>HandleTouchUp\<close>: \<^verbatim>\<open>buttons[touchedButton]\<close> is read without a comparison of
  \<^verbatim>\<open>touchedButton\<close> with \<^verbatim>\<open>NONE\<close>.
\<close>

definition HandleTouchUp :: "state \<Rightarrow> fault + state" where
  "HandleTouchUp s =
     (if touchTimer s <s 3 then Inr s
      else bind (button_at (buttons s) (sint (touchedButton s)))
             (\<lambda>button.
                Inr ((if ButtonTouched s button then s\<lparr>buttonPressed := touchedButton s\<rparr> else s)
                     \<lparr>touchedButton := NONE, touchedSlider := NONE\<rparr>)))"

text \<open>
  The interrupt routine of timer 1. Its argument is \<open>Some (x, y)\<close> when
  \<^verbatim>\<open>Touch_DataAvailable\<close> holds, with the coordinates the touch controller then delivers,
  and \<open>None\<close> otherwise. The write to the backlight register \<^verbatim>\<open>OCR0A\<close> is not modelled.
\<close>

definition TIMER1_OVF :: "(U16 \<times> U16) option \<Rightarrow> state \<Rightarrow> fault + state" where
  "TIMER1_OVF touch s =
     (case touch of
        Some (x, y) \<Rightarrow> HandleTouchDown x y (s\<lparr>touchTimer := touchTimer s + 1\<rparr>)
      | None \<Rightarrow>
          bind (if 0 <s touchTimer s then HandleTouchUp s else Inr s)
            (\<lambda>s1. Inr (s1\<lparr>touchTimer := 0, touchX := - 1, touchY := - 1\<rparr>)))"

text \<open>
  The interrupt routine of timer 0 (7812 Hz); the backlight port is not modelled. The
  increments of \<^verbatim>\<open>ticks\<close> and \<^verbatim>\<open>touchTimer\<close> wrap around at 16 bits, as the machine's
  addition does.
\<close>

definition TIMER0_OVF :: "state \<Rightarrow> state" where
  "TIMER0_OVF s = s\<lparr>ticks := ticks s + 1\<rparr>"

section \<open>The main loop\<close>

text \<open>
  \<^verbatim>\<open>Transmit\<close> writes one byte to the UART. Its two busy-wait loops and its delay wait
  for the hardware and change no variable of the program.
\<close>

definition Transmit :: "U8 \<Rightarrow> state \<Rightarrow> state" where
  "Transmit c s = s\<lparr>tx := tx s @ [c]\<rparr>"

text \<open>
  \<^verbatim>\<open>ReadADC\<close> returns the conversion register \<^verbatim>\<open>ADCW\<close>. The environment \<open>adc\<close> gives the
  result of the \<open>k\<close>-th conversion on a channel.
\<close>

definition ReadADC :: "(nat \<Rightarrow> U8 \<Rightarrow> c_int) \<Rightarrow> U8 \<Rightarrow> state \<Rightarrow> c_int \<times> state" where
  "ReadADC adc channel s = (adc (adcReads s) channel, s\<lparr>adcReads := Suc (adcReads s)\<rparr>)"

text \<open>The \<^verbatim>\<open>switch (buttonPressed)\<close> of \<^verbatim>\<open>main\<close>; it has no default case.\<close>

definition dispatch :: "state \<Rightarrow> fault + state" where
  "dispatch s =
     (let b = buttonPressed s in
      if b = NONE then Inr s
      else if b = WALK_MODE then
        SelectButton WALK_MODE WIGGLE_MODE NONE (s\<lparr>controlBits := controlBits s AND NOT WIGGLE_BIT\<rparr>)
      else if b = WIGGLE_MODE then
        SelectButton WIGGLE_MODE WALK_MODE NONE (s\<lparr>controlBits := controlBits s OR WIGGLE_BIT\<rparr>)
      else if b = TRIPOD_GAIT then
        SelectButton TRIPOD_GAIT RIPPLE_GAIT NONE (s\<lparr>controlBits := controlBits s AND NOT RIPPLE_BIT\<rparr>)
      else if b = RIPPLE_GAIT then
        SelectButton RIPPLE_GAIT TRIPOD_GAIT NONE (s\<lparr>controlBits := controlBits s OR RIPPLE_BIT\<rparr>)
      else if b = LOW_BODY then
        SelectButton LOW_BODY HIGH_BODY NONE (s\<lparr>controlBits := controlBits s AND NOT HIGH_BODY_BIT\<rparr>)
      else if b = HIGH_BODY then
        SelectButton HIGH_BODY LOW_BODY NONE (s\<lparr>controlBits := controlBits s OR HIGH_BODY_BIT\<rparr>)
      else if b = LOW_STEP then
        SelectButton LOW_STEP HIGH_STEP NONE (s\<lparr>controlBits := controlBits s AND NOT HIGH_STEP_BIT\<rparr>)
      else if b = HIGH_STEP then
        SelectButton HIGH_STEP LOW_STEP NONE (s\<lparr>controlBits := controlBits s OR HIGH_STEP_BIT\<rparr>)
      else if b = LONG_STEP then
        SelectButton LONG_STEP QUICK_STEP NONE (s\<lparr>controlBits := controlBits s AND NOT QUICK_STEP_BIT\<rparr>)
      else if b = QUICK_STEP then
        SelectButton QUICK_STEP LONG_STEP NONE (s\<lparr>controlBits := controlBits s OR QUICK_STEP_BIT\<rparr>)
      else if b = RED_EYES then SelectButton RED_EYES GREEN_EYES BLUE_EYES (Transmit 114 s)
      else if b = GREEN_EYES then SelectButton GREEN_EYES RED_EYES BLUE_EYES (Transmit 103 s)
      else if b = BLUE_EYES then SelectButton BLUE_EYES RED_EYES GREEN_EYES (Transmit 98 s)
      else Inr s)"

text \<open>
  The check for a received byte: the argument is \<open>Some b\<close> when the flag \<^verbatim>\<open>RXC1\<close> is set
  and \<^verbatim>\<open>UDR1\<close> holds \<open>b\<close>.
\<close>

definition receiveStatus :: "U8 option \<Rightarrow> state \<Rightarrow> state" where
  "receiveStatus rx s =
     (case rx of
        None \<Rightarrow> s
      | Some b \<Rightarrow>
          (let newHexapodSoC = (ucast b :: c_int) in
           if newHexapodSoC <s hexapodSoC s then s\<lparr>hexapodSoC := newHexapodSoC\<rparr> else s))"

text \<open>
  The body of the 10 Hz loop after \<^verbatim>\<open>ticks -= 781\<close>. The battery percentage is computed
  on \<^verbatim>\<open>int\<close>; the joystick samples are shifted right as \<^verbatim>\<open>int\<close> and stored in \<^verbatim>\<open>uint8_t\<close>;
  the checksum is a sum of \<^verbatim>\<open>int\<close> that \<^verbatim>\<open>Transmit\<close> receives as \<^verbatim>\<open>unsigned char\<close>.
\<close>

definition battery_percentage :: "c_int \<Rightarrow> c_int" where
  "battery_percentage v = int_div ((v - 500) * 2) 3"

definition sampleBattery :: "(nat \<Rightarrow> U8 \<Rightarrow> c_int) \<Rightarrow> state \<Rightarrow> state" where
  "sampleBattery adc s =
     (let (v, s1) = ReadADC adc V_BATT s;
          newControllerSoC = battery_percentage v
      in if newControllerSoC <s controllerSoC s1
         then s1\<lparr>controllerSoC := newControllerSoC\<rparr> else s1)"

definition sampleJoysticks :: "(nat \<Rightarrow> U8 \<Rightarrow> c_int) \<Rightarrow> state \<Rightarrow> state" where
  "sampleJoysticks adc s =
     (let (a, s1) = ReadADC adc LEFT_X s;
          s2 = s1\<lparr>left_x := ucast (signed_drop_bit 2 a)\<rparr>;
          (b, s3) = ReadADC adc LEFT_Y s2;
          s4 = s3\<lparr>left_y := ucast (signed_drop_bit 2 b)\<rparr>;
          (c, s5) = ReadADC adc RIGHT_X s4;
          s6 = s5\<lparr>right_x := ucast (signed_drop_bit 2 c)\<rparr>;
          (d, s7) = ReadADC adc RIGHT_Y s6
      in s7\<lparr>right_y := ucast (signed_drop_bit 2 d)\<rparr>)"

definition checksum :: "state \<Rightarrow> U8" where
  "checksum s =
     ucast ((ucast (controlBits s) :: c_int) + ucast (left_x s) + ucast (left_y s)
            + ucast (right_x s) + ucast (right_y s))"

definition transmitFrame :: "state \<Rightarrow> state" where
  "transmitFrame s =
     Transmit (checksum s)
       (Transmit (right_y s)
         (Transmit (right_x s)
           (Transmit (left_y s)
             (Transmit (left_x s)
               (Transmit (controlBits s)
                 (Transmit (ucast (joystick_command_character s)) s))))))"

definition cycle10Hz :: "(nat \<Rightarrow> U8 \<Rightarrow> c_int) \<Rightarrow> state \<Rightarrow> state" where
  "cycle10Hz adc s = transmitFrame (sampleJoysticks adc (sampleBattery adc s))"

text \<open>
  The loop \<^verbatim>\<open>while (ticks > 781)\<close>. \<^verbatim>\<open>ticks\<close> is a \<^verbatim>\<open>short\<close>: the comparison is signed.
  The loop ends because each pass takes 781 from a value above 781 and the body leaves
  \<^verbatim>\<open>ticks\<close> alone (the timer interrupt is not part of a pass).
\<close>

function tickLoop :: "(nat \<Rightarrow> U8 \<Rightarrow> c_int) \<Rightarrow> state \<Rightarrow> state" where
  "tickLoop adc s =
     (if 781 <s ticks s then tickLoop adc (cycle10Hz adc (s\<lparr>ticks := ticks s - 781\<rparr>)) else s)"
  by pat_completeness auto
termination
proof (relation "measure (\<lambda>(adc, s). nat (sint (ticks s)))")
  show "wf (measure (\<lambda>(adc :: nat \<Rightarrow> U8 \<Rightarrow> c_int, s). nat (sint (ticks s))))"
    by simp
next
  fix adc :: "nat \<Rightarrow> U8 \<Rightarrow> c_int" and s :: state
  assume above: "781 <s ticks s"
  then have lo: "781 < sint (ticks s)"
    by (simp add: word_sless_alt)
  have hi: "sint (ticks s) < 32768"
    using sint_lt [of "ticks s"] by simp
  have "sint (ticks s - 781) = signed_take_bit 15 (sint (ticks s) - 781)"
    by (simp add: sint_word_ariths)
  also have "\<dots> = sint (ticks s) - 781"
    using lo hi by (simp add: signed_take_bit_int_eq_self)
  finally have less: "sint (ticks s - 781) < sint (ticks s)"
    by simp
  have same: "ticks (cycle10Hz adc (s\<lparr>ticks := ticks s - 781\<rparr>)) = ticks s - 781"
    by (simp add: cycle10Hz_def transmitFrame_def Transmit_def sampleJoysticks_def
        sampleBattery_def ReadADC_def Let_def)
  show "((adc, cycle10Hz adc (s\<lparr>ticks := ticks s - 781\<rparr>)), (adc, s))
          \<in> measure (\<lambda>(adc, s). nat (sint (ticks s)))"
    using less lo by (simp add: same)
qed

declare tickLoop.simps [simp del]

text \<open>
  \<^verbatim>\<open>RenderButtons\<close> and \<^verbatim>\<open>RenderSliders\<close>, as far as they change the widgets. The calls
  of the display driver (\<^verbatim>\<open>TFT_Box\<close>, \<^verbatim>\<open>TFT_Text\<close>, ...) write to the panel only, and
  \<^verbatim>\<open>RenderMainPage\<close> and \<^verbatim>\<open>DrawBattery\<close> consist of such calls.
\<close>

definition renderButton :: "nat \<Rightarrow> state \<Rightarrow> state" where
  "renderButton n s =
     (let button = buttons s ! n;
          wasHighlighted = highlighted button;
          button1 = button\<lparr>highlighted := (ButtonTouched s button \<and> sint (touchedButton s) = int n)\<rparr>;
          button2 = (if b_page button1 = currentPage s
                        \<and> (wasHighlighted \<noteq> highlighted button1 \<or> needsRedraw button1)
                     then button1\<lparr>needsRedraw := False\<rparr> else button1)
      in s\<lparr>buttons := (buttons s)[n := button2]\<rparr>)"

definition RenderButtons :: "state \<Rightarrow> state" where
  "RenderButtons s = fold renderButton [0..<NUM_BUTTONS] s"

definition renderSlider :: "nat \<Rightarrow> state \<Rightarrow> state" where
  "renderSlider n s =
     (let slider = sliders s ! n in
      if s_page slider = currentPage s \<and> oldValue slider \<noteq> s_value slider
      then s\<lparr>sliders := (sliders s)[n := slider\<lparr>oldValue := s_value slider\<rparr>]\<rparr>
      else s)"

definition RenderSliders :: "state \<Rightarrow> state" where
  "RenderSliders s = fold renderSlider [0..<NUM_SLIDERS] s"

text \<open>
  One pass of the \<^verbatim>\<open>while (1)\<close> loop of \<^verbatim>\<open>main\<close>. A pass is taken as a whole: the
  interrupt routines run between passes.
\<close>

definition main_pass :: "(nat \<Rightarrow> U8 \<Rightarrow> c_int) \<Rightarrow> U8 option \<Rightarrow> state \<Rightarrow> fault + state" where
  "main_pass adc rx s =
     bind (dispatch s)
       (\<lambda>s1. Inr ((RenderSliders (RenderButtons
                     (tickLoop adc (receiveStatus rx (s1\<lparr>buttonPressed := NONE\<rparr>)))))
                  \<lparr>displayNeedsFullRedraw := False\<rparr>))"

text \<open>
  The start of \<^verbatim>\<open>main\<close>: thirteen calls of \<^verbatim>\<open>InitialiseButton\<close>, in this order, and no
  call of \<^verbatim>\<open>InitialiseSlider\<close>.
\<close>

definition main_init :: "fault + state" where
  "main_init =
     bind (InitialiseButton WALK_MODE 140 30 100 BLUE ''Walk'' True boot) (\<lambda>s.
     bind (InitialiseButton WIGGLE_MODE 260 30 100 BLUE ''Wiggle'' False s) (\<lambda>s.
     bind (InitialiseButton TRIPOD_GAIT 140 65 100 BLUE ''Tripod'' True s) (\<lambda>s.
     bind (InitialiseButton RIPPLE_GAIT 260 65 100 BLUE ''Ripple'' False s) (\<lambda>s.
     bind (InitialiseButton LOW_BODY 140 100 100 BLUE ''Low'' True s) (\<lambda>s.
     bind (InitialiseButton HIGH_BODY 260 100 100 BLUE ''High'' False s) (\<lambda>s.
     bind (InitialiseButton LOW_STEP 140 135 100 BLUE ''Low'' True s) (\<lambda>s.
     bind (InitialiseButton HIGH_STEP 260 135 100 BLUE ''High'' False s) (\<lambda>s.
     bind (InitialiseButton LONG_STEP 140 170 100 BLUE ''Long'' True s) (\<lambda>s.
     bind (InitialiseButton QUICK_STEP 260 170 100 BLUE ''Quick'' False s) (\<lambda>s.
     bind (InitialiseButton RED_EYES 122 205 64 RED ''Red'' False s) (\<lambda>s.
     bind (InitialiseButton GREEN_EYES 200 205 70 GREEN ''Green'' True s) (\<lambda>s.
     InitialiseButton BLUE_EYES 278 205 64 BLUE ''Blue'' False s))))))))))))"

section \<open>Runs of the firmware\<close>

text \<open>
  After \<^verbatim>\<open>sei()\<close> the program is a sequence of timer 0 overflows, timer 1 overflows
  (each with what the touch controller reports) and passes of the main loop (each with
  what the UART has received). A fault ends the run.
\<close>

datatype event = Tick | Poll "(U16 \<times> U16) option" | Pass "U8 option"

fun step :: "(nat \<Rightarrow> U8 \<Rightarrow> c_int) \<Rightarrow> event \<Rightarrow> state \<Rightarrow> fault + state" where
  "step adc Tick s = Inr (TIMER0_OVF s)"
| "step adc (Poll touch) s = TIMER1_OVF touch s"
| "step adc (Pass rx) s = main_pass adc rx s"

fun run :: "(nat \<Rightarrow> U8 \<Rightarrow> c_int) \<Rightarrow> event list \<Rightarrow> state \<Rightarrow> fault + state" where
  "run adc [] s = Inr s"
| "run adc (e # es) s = bind (step adc e s) (run adc es)"

definition firmware :: "(nat \<Rightarrow> U8 \<Rightarrow> c_int) \<Rightarrow> event list \<Rightarrow> fault + state" where
  "firmware adc es = bind main_init (run adc es)"

text \<open>An environment in which every conversion reads mid-scale.\<close>

definition adc_centred :: "nat \<Rightarrow> U8 \<Rightarrow> c_int" where
  "adc_centred k channel = 512"

text \<open>The widgets and variables when the main loop is entered (see \<open>main_init_eq\<close>).\<close>

definition new_Button :: "U16 \<Rightarrow> U16 \<Rightarrow> U16 \<Rightarrow> U16 \<Rightarrow> string \<Rightarrow> bool \<Rightarrow> Button" where
  "new_Button x y width colour text sel =
     \<lparr>b_x = x, b_y = y, b_width = width, b_colour = colour, b_text = text,
      highlighted = False, selected = sel, needsRedraw = True, b_page = MAIN_PAGE\<rparr>"

definition started :: state where
  "started = boot\<lparr>buttons :=
     [new_Button 140 30 100 BLUE ''Walk'' True, new_Button 260 30 100 BLUE ''Wiggle'' False,
      new_Button 140 65 100 BLUE ''Tripod'' True, new_Button 260 65 100 BLUE ''Ripple'' False,
      new_Button 140 100 100 BLUE ''Low'' True, new_Button 260 100 100 BLUE ''High'' False,
      new_Button 140 135 100 BLUE ''Low'' True, new_Button 260 135 100 BLUE ''High'' False,
      new_Button 140 170 100 BLUE ''Long'' True, new_Button 260 170 100 BLUE ''Quick'' False,
      new_Button 122 205 64 RED ''Red'' False, new_Button 200 205 70 GREEN ''Green'' True,
      new_Button 278 205 64 BLUE ''Blue'' False]\<rparr>"

text \<open>
  The button ids, and the mutual-exclusion groups: the ids that occur together in one
  call of \<^verbatim>\<open>SelectButton\<close> in \<^verbatim>\<open>main\<close>.
\<close>

definition button_ids :: "S8 list" where
  "button_ids = [WALK_MODE, WIGGLE_MODE, TRIPOD_GAIT, RIPPLE_GAIT, LOW_BODY, HIGH_BODY,
     LOW_STEP, HIGH_STEP, LONG_STEP, QUICK_STEP, RED_EYES, GREEN_EYES, BLUE_EYES]"

definition group_of :: "S8 \<Rightarrow> S8 list" where
  "group_of b =
     (if b = WALK_MODE \<or> b = WIGGLE_MODE then [WALK_MODE, WIGGLE_MODE]
      else if b = TRIPOD_GAIT \<or> b = RIPPLE_GAIT then [TRIPOD_GAIT, RIPPLE_GAIT]
      else if b = LOW_BODY \<or> b = HIGH_BODY then [LOW_BODY, HIGH_BODY]
      else if b = LOW_STEP \<or> b = HIGH_STEP then [LOW_STEP, HIGH_STEP]
      else if b = LONG_STEP \<or> b = QUICK_STEP then [LONG_STEP, QUICK_STEP]
      else if b = RED_EYES \<or> b = GREEN_EYES \<or> b = BLUE_EYES
        then [RED_EYES, GREEN_EYES, BLUE_EYES]
      else [])"

text \<open>Fields that the touch handlers and the widget code leave alone.\<close>

definition kept :: "state \<Rightarrow> state \<Rightarrow> bool" where
  "kept s s' = (hexapodSoC s' = hexapodSoC s \<and> controllerSoC s' = controllerSoC s
     \<and> currentPage s' = currentPage s
     \<and> joystick_command_character s' = joystick_command_character s)"

text \<open>
  The sliders as they are when no call of \<^verbatim>\<open>InitialiseSlider\<close> has been made, on the
  only page.
\<close>

definition blank :: "state \<Rightarrow> bool" where
  "blank s = (sliders s = [zero_Slider, zero_Slider] \<and> currentPage s = MAIN_PAGE)"

text \<open>
  The conversion from a drag to a slider value as the specification words it: on the
  integers, with a division that truncates, then clamped to 0..100. It is compared with
  \<open>slider_percentage\<close> and \<open>clamp_percentage\<close>, which are the code.
\<close>

definition spec_slider_value :: "int \<Rightarrow> int \<Rightarrow> int \<Rightarrow> int" where
  "spec_slider_value touch_x centre width =
     (let usableWidth = width - 16;
          percentage = (100 * (touch_x - (centre - usableWidth sdiv 2))) sdiv usableWidth
      in max 0 (min 100 percentage))"

text \<open>Two sliders as a call of \<^verbatim>\<open>InitialiseSlider\<close> makes them.\<close>

definition wide_slider :: Slider where
  "wide_slider = \<lparr>s_x = 160, s_y = 100, s_width = 200, s_colour = BLUE, s_value = 50,
     oldValue = - 1, s_page = MAIN_PAGE\<rparr>"

definition narrow_slider :: Slider where
  "narrow_slider = \<lparr>s_x = 160, s_y = 100, s_width = 40, s_colour = BLUE, s_value = 50,
     oldValue = - 1, s_page = MAIN_PAGE\<rparr>"

section \<open>Basic facts\<close>

lemmas enum_defs =
  NONE_def WALK_MODE_def WIGGLE_MODE_def TRIPOD_GAIT_def RIPPLE_GAIT_def LOW_BODY_def
  HIGH_BODY_def LOW_STEP_def HIGH_STEP_def LONG_STEP_def QUICK_STEP_def RED_EYES_def
  GREEN_EYES_def BLUE_EYES_def NUM_BUTTONS_def NUM_SLIDERS_def MAIN_PAGE_def

lemma replicate_NUM_BUTTONS:
  "replicate NUM_BUTTONS b = [b, b, b, b, b, b, b, b, b, b, b, b, b]"
  by (simp add: NUM_BUTTONS_def numeral_eq_Suc)

lemma main_init_eq: "main_init = Inr started"
  unfolding main_init_def started_def boot_def InitialiseButton_def button_upd_def
    replicate_NUM_BUTTONS
  by (simp add: bind_def enum_defs zero_Button_def new_Button_def)

lemma wf_started: "wf_state started"
  by (simp add: wf_state_def started_def boot_def enum_defs)

lemma tx_started: "tx started = []"
  by (simp add: started_def boot_def)

lemma started_fields:
  "touchedButton started = NONE" "sliders started = [zero_Slider, zero_Slider]"
  "ticks started = 0" "currentPage started = MAIN_PAGE" "touchTimer started = 0"
  "touchX started = 0" "touchY started = 0" "buttonPressed started = NONE"
  "touchedSlider started = NONE" "controlBits started = 0"
  "joystick_command_character started = 99" "controllerSoC started = 100"
  "hexapodSoC started = 100" "adcReads started = 0"
  by (simp_all add: started_def boot_def enum_defs numeral_eq_Suc)

lemma buttons_started:
  "buttons started =
     [new_Button 140 30 100 BLUE ''Walk'' True, new_Button 260 30 100 BLUE ''Wiggle'' False,
      new_Button 140 65 100 BLUE ''Tripod'' True, new_Button 260 65 100 BLUE ''Ripple'' False,
      new_Button 140 100 100 BLUE ''Low'' True, new_Button 260 100 100 BLUE ''High'' False,
      new_Button 140 135 100 BLUE ''Low'' True, new_Button 260 135 100 BLUE ''High'' False,
      new_Button 140 170 100 BLUE ''Long'' True, new_Button 260 170 100 BLUE ''Quick'' False,
      new_Button 122 205 64 RED ''Red'' False, new_Button 200 205 70 GREEN ''Green'' True,
      new_Button 278 205 64 BLUE ''Blue'' False]"
  by (simp add: started_def)

section \<open>The telemetry frame and the 10 Hz loop\<close>

lemma cycle10Hz_fields:
  "controlBits (cycle10Hz adc s) = controlBits s"
  "left_x (cycle10Hz adc s) = ucast (signed_drop_bit 2 (adc (adcReads s + 1) LEFT_X))"
  "left_y (cycle10Hz adc s) = ucast (signed_drop_bit 2 (adc (adcReads s + 2) LEFT_Y))"
  "right_x (cycle10Hz adc s) = ucast (signed_drop_bit 2 (adc (adcReads s + 3) RIGHT_X))"
  "right_y (cycle10Hz adc s) = ucast (signed_drop_bit 2 (adc (adcReads s + 4) RIGHT_Y))"
  "adcReads (cycle10Hz adc s) = adcReads s + 5"
  "controllerSoC (cycle10Hz adc s) =
     (if battery_percentage (adc (adcReads s) V_BATT) <s controllerSoC s
      then battery_percentage (adc (adcReads s) V_BATT) else controllerSoC s)"
  by (simp_all add: cycle10Hz_def transmitFrame_def Transmit_def sampleJoysticks_def
      sampleBattery_def ReadADC_def Let_def numeral_eq_Suc)

text \<open>
  A conversion result has ten bits; for such a sample the joystick byte is the sample
  divided by four.
\<close>

lemma downsample:
  fixes a :: "16 word"
  assumes "a < 1024"
  shows "uint (ucast (signed_drop_bit 2 a) :: 8 word) = uint a div 4"
proof -
  from assms have u: "uint a < 1024" by (simp add: word_less_def)
  have z: "0 \<le> uint a" by (rule uint_ge_0)
  have lo: "- (2 ^ 15) \<le> uint a"
    by (rule order_trans [OF _ z]) simp
  have hi: "uint a < 2 ^ 15"
    using u by simp
  have "sint a = signed_take_bit 15 (uint a)" by (simp add: sint_uint)
  also have "\<dots> = uint a"
    by (rule signed_take_bit_int_eq_self [OF lo hi])
  finally have sa: "sint a = uint a" .
  have q0: "0 \<le> uint a div 4"
    using z by (rule pos_imp_zdiv_nonneg_iff [THEN iffD2, rotated]) simp
  have q1: "uint a div 4 < 256"
    using u by linarith
  have q16: "uint a div 4 < 2 ^ 16" and q8: "uint a div 4 < 2 ^ 8"
    using q1 by simp_all
  have "sint (signed_drop_bit 2 a) = uint a div 4"
    by (simp add: sint_signed_drop_bit_eq sa drop_bit_eq_div)
  then have "uint (signed_drop_bit 2 a) = take_bit 16 (uint a div 4)"
    by (simp add: uint_sint)
  also have "\<dots> = uint a div 4"
    by (rule take_bit_int_eq_self [OF q0 q16])
  finally have d: "uint (signed_drop_bit 2 a) = uint a div 4" .
  have "uint (ucast (signed_drop_bit 2 a) :: 8 word) = take_bit 8 (uint (signed_drop_bit 2 a))"
    by (simp add: unsigned_ucast_eq)
  also have "\<dots> = uint a div 4"
    unfolding d by (rule take_bit_int_eq_self [OF q0 q8])
  finally show ?thesis .
qed

lemma ucast_sum5:
  fixes a b c d e :: "8 word"
  shows "(ucast ((ucast a :: 16 word) + ucast b + ucast c + ucast d + ucast e) :: 8 word) = a + b + c + d + e"
proof -
  have "unat (ucast ((ucast a :: 16 word) + ucast b + ucast c + ucast d + ucast e) :: 8 word)
      = unat (a + b + c + d + e)"
    by (simp add: unsigned_ucast_eq unat_word_ariths take_bit_eq_mod mod_simps mod_mod_cancel) 
  then show ?thesis by (simp only: word_unat_eq_iff)
qed

lemma unat_checksum:
  "unat (checksum s) = (unat (controlBits s) + unat (left_x s) + unat (left_y s) + unat (right_x s) + unat (right_y s)) mod 256"
  by (simp add: checksum_def ucast_sum5 unat_word_ariths mod_simps)

lemma tx_sampleBattery: "tx (sampleBattery adc s) = tx s"
  by (simp add: sampleBattery_def ReadADC_def Let_def)

lemma tx_sampleJoysticks: "tx (sampleJoysticks adc s) = tx s"
  by (simp add: sampleJoysticks_def ReadADC_def Let_def)

lemma tx_transmitFrame:
  "tx (transmitFrame s) = tx s @ [ucast (joystick_command_character s), controlBits s, left_x s, left_y s, right_x s, right_y s, checksum s]"
  by (simp add: transmitFrame_def Transmit_def)

lemma jcc_sample: "joystick_command_character (sampleJoysticks adc (sampleBattery adc s)) = joystick_command_character s"
  by (simp add: sampleJoysticks_def sampleBattery_def ReadADC_def Let_def)

lemma frame_fields_transmitFrame:
  "controlBits (transmitFrame s) = controlBits s" "left_x (transmitFrame s) = left_x s"
  "left_y (transmitFrame s) = left_y s" "right_x (transmitFrame s) = right_x s"
  "right_y (transmitFrame s) = right_y s" "checksum (transmitFrame s) = checksum s"
  by (simp_all add: transmitFrame_def Transmit_def checksum_def)

text \<open>
  C5. With \<^verbatim>\<open>joystick_command_character\<close> still at its initial value \<^verbatim>\<open>'c'\<close> (99; no
  function of the program writes it), one 10 Hz cycle appends exactly seven bytes to the
  UART output, in this order: the command character, the control bits, left x, left y,
  right x, right y, and the checksum. The checksum is the sum of the five bytes before it
  modulo 256. For the control bits 17 and the samples 10, 20, 30, 40 it is 117.
\<close>

theorem telemetry_frame:
  assumes "joystick_command_character s = 99"
  shows "tx (cycle10Hz adc s) =
           tx s @ [99, controlBits (cycle10Hz adc s), left_x (cycle10Hz adc s),
             left_y (cycle10Hz adc s), right_x (cycle10Hz adc s), right_y (cycle10Hz adc s),
             checksum (cycle10Hz adc s)]
     \<and> unat (checksum (cycle10Hz adc s)) =
          (unat (controlBits (cycle10Hz adc s)) + unat (left_x (cycle10Hz adc s))
           + unat (left_y (cycle10Hz adc s)) + unat (right_x (cycle10Hz adc s))
           + unat (right_y (cycle10Hz adc s))) mod 256
     \<and> checksum (s\<lparr>controlBits := 17, left_x := 10, left_y := 20, right_x := 30, right_y := 40\<rparr>) = 117"
  using assms
  by (simp add: unat_checksum)
     (simp add: cycle10Hz_def tx_transmitFrame frame_fields_transmitFrame jcc_sample
       tx_sampleBattery tx_sampleJoysticks checksum_def)

theorem telemetry_frame_witness:
  "joystick_command_character started = 99
   \<and> tx (cycle10Hz adc_centred started) = [99, 0, 128, 128, 128, 128, 0]"
  using telemetry_frame [of started adc_centred]
  by (simp add: started_fields cycle10Hz_fields tx_started adc_centred_def checksum_def)

lemma ticks_cycle10Hz: "ticks (cycle10Hz adc s) = ticks s"
  by (simp add: cycle10Hz_def transmitFrame_def Transmit_def sampleJoysticks_def
      sampleBattery_def ReadADC_def Let_def)

lemma sint_minus_781:
  fixes t :: "16 word"
  assumes "781 <s t"
  shows "sint (t - 781) = sint t - 781"
proof -
  from assms have lo: "781 < sint t" by (simp add: word_sless_alt)
  have hi: "sint t < 32768" using sint_lt [of t] by simp
  have "sint (t - 781) = signed_take_bit 15 (sint t - 781)"
    by (simp add: sint_word_ariths)
  also have "\<dots> = sint t - 781"
    using lo hi by (simp add: signed_take_bit_int_eq_self)
  finally show ?thesis .
qed

lemma length_tx_cycle10Hz: "length (tx (cycle10Hz adc s)) = length (tx s) + 7"
  by (simp add: cycle10Hz_def tx_transmitFrame tx_sampleBattery tx_sampleJoysticks)

lemma tickLoop_count:
  "length (tx (tickLoop adc s)) = length (tx s) + 7 * nat ((sint (ticks s) - 1) div 781)"
proof (induction adc s rule: tickLoop.induct)
  case (1 adc s)
  show ?case
  proof (cases "781 <s ticks s")
    case True
    let ?s1 = "cycle10Hz adc (s\<lparr>ticks := ticks s - 781\<rparr>)"
    from True have lo: "781 < sint (ticks s)" by (simp add: word_sless_alt)
    have t1: "sint (ticks ?s1) = sint (ticks s) - 781"
      using True by (simp add: ticks_cycle10Hz sint_minus_781)
    have "length (tx (tickLoop adc s)) = length (tx (tickLoop adc ?s1))"
      using True by (simp add: tickLoop.simps [of adc s])
    also have "\<dots> = length (tx ?s1) + 7 * nat ((sint (ticks ?s1) - 1) div 781)"
      using "1.IH" [OF True] .
    also have "\<dots> = length (tx s) + 7 + 7 * nat ((sint (ticks s) - 1 - 781) div 781)"
      by (simp add: length_tx_cycle10Hz t1 algebra_simps)
    also have "(sint (ticks s) - 1 - 781) div 781 = (sint (ticks s) - 1) div 781 - 1"
      by simp
    also have "length (tx s) + 7 + 7 * nat ((sint (ticks s) - 1) div 781 - 1)
         = length (tx s) + 7 * nat ((sint (ticks s) - 1) div 781)"
    proof -
      have "1 \<le> (sint (ticks s) - 1) div 781" using lo by simp
      then show ?thesis by (simp add: nat_diff_distrib)
    qed
    finally show ?thesis .
  next
    case False
    then have "sint (ticks s) \<le> 781" by (simp add: word_sless_alt)
    then have "(sint (ticks s) - 1) div 781 \<le> 0"
      by simp
    with False show ?thesis by (simp add: tickLoop.simps [of adc s])
  qed
qed

lemma tickLoop_above:
  "781 <s ticks s \<Longrightarrow> tickLoop adc s = tickLoop adc (cycle10Hz adc (s\<lparr>ticks := ticks s - 781\<rparr>))"
  by (simp add: tickLoop.simps [of adc s])

lemma tickLoop_below: "\<not> 781 <s ticks s \<Longrightarrow> tickLoop adc s = s"
  by (simp add: tickLoop.simps [of adc s])

text \<open>
  C1, as the code has it. The loop test is \<^verbatim>\<open>ticks > 781\<close>: when \<^verbatim>\<open>ticks\<close> is above 781
  (782 or more) the loop takes 781 from it, without wrap-around, and performs one cycle
  (battery sample, joystick samples, one frame) before it tests again; when \<^verbatim>\<open>ticks\<close> is
  781 or less the loop does nothing. A pass of the loop entered with \<^verbatim>\<open>ticks = t\<close> sends
  \<open>(t - 1) div 781\<close> frames of seven bytes (none for \<open>t \<le> 781\<close>).
\<close>

theorem tick_loop_strict:
  "(781 <s ticks s \<longrightarrow>
      tickLoop adc s =
        tickLoop adc (transmitFrame (sampleJoysticks adc (sampleBattery adc (s\<lparr>ticks := ticks s - 781\<rparr>))))
      \<and> sint (ticks s - 781) = sint (ticks s) - 781)
   \<and> (\<not> 781 <s ticks s \<longrightarrow> tickLoop adc s = s)
   \<and> length (tx (tickLoop adc s)) = length (tx s) + 7 * nat ((sint (ticks s) - 1) div 781)"
  using tickLoop_above [of s adc] tickLoop_below [of s adc] tickLoop_count [of adc s]
    sint_minus_781 [of "ticks s"]
  by (simp add: cycle10Hz_def)

theorem tick_loop_strict_witness:
  "781 <s ticks (started\<lparr>ticks := 1600\<rparr>)
   \<and> length (tx (tickLoop adc_centred (started\<lparr>ticks := 1600\<rparr>))) = 14
   \<and> \<not> 781 <s ticks (started\<lparr>ticks := 500\<rparr>)
   \<and> tickLoop adc_centred (started\<lparr>ticks := 500\<rparr>) = started\<lparr>ticks := 500\<rparr>"
proof -
  have a: "781 <s ticks (started\<lparr>ticks := 1600\<rparr>)" by simp
  have b: "\<not> 781 <s ticks (started\<lparr>ticks := 500\<rparr>)" by simp
  from tick_loop_strict [of "started\<lparr>ticks := 1600\<rparr>" adc_centred]
  have "length (tx (tickLoop adc_centred (started\<lparr>ticks := 1600\<rparr>)))
          = length (tx (started\<lparr>ticks := 1600\<rparr>))
            + 7 * nat ((sint (ticks (started\<lparr>ticks := 1600\<rparr>)) - 1) div 781)"
    by blast
  then have c: "length (tx (tickLoop adc_centred (started\<lparr>ticks := 1600\<rparr>))) = 14"
    by (simp add: tx_started)
  from tick_loop_strict [of "started\<lparr>ticks := 500\<rparr>" adc_centred] b
  have d: "tickLoop adc_centred (started\<lparr>ticks := 500\<rparr>) = started\<lparr>ticks := 500\<rparr>"
    by blast
  from a b c d show ?thesis by blast
qed

text \<open>
  C1, as the claim states it, fails: entered with \<^verbatim>\<open>ticks\<close> equal to 781 the loop returns
  the state as it was; nothing is subtracted, sampled or transmitted.
\<close>

theorem tick_loop_at_781_counterexample:
  "tickLoop adc_centred (started\<lparr>ticks := 781\<rparr>) = started\<lparr>ticks := 781\<rparr>
   \<and> ticks (tickLoop adc_centred (started\<lparr>ticks := 781\<rparr>)) = 781
   \<and> tx (tickLoop adc_centred (started\<lparr>ticks := 781\<rparr>)) = []
   \<and> adcReads (tickLoop adc_centred (started\<lparr>ticks := 781\<rparr>)) = 0"
  by (simp add: tickLoop_below tx_started started_fields)

section \<open>Selection\<close>

text \<open>
  C2, as the claim states it, fails for the slot \<^verbatim>\<open>oldButton\<close>: with \<^verbatim>\<open>NONE\<close> there,
  \<^verbatim>\<open>SelectButton\<close> accesses \<^verbatim>\<open>buttons[-1]\<close>.
\<close>

theorem select_sentinel_old_counterexample:
  "SelectButton WALK_MODE NONE NONE started = Inl (OutOfBounds (- 1))"
  by (simp add: SelectButton_def button_upd_def bind_def enum_defs started_def)

lemma button_upd_in_range:
  "0 \<le> i \<Longrightarrow> i < int NUM_BUTTONS \<Longrightarrow>
   button_upd i f s = Inr (s\<lparr>buttons := (buttons s)[nat i := f (buttons s ! nat i)]\<rparr>)"
  by (simp add: button_upd_def)

text \<open>
  C2, as the code has it. With button ids in \<^verbatim>\<open>newButton\<close> and \<^verbatim>\<open>oldButton\<close>, the
  sentinel \<^verbatim>\<open>NONE\<close> in the slot \<^verbatim>\<open>otherOldButton\<close> is a no-op for that slot: the call
  does the writes to \<^verbatim>\<open>buttons[newButton]\<close> and \<^verbatim>\<open>buttons[oldButton]\<close> and nothing else,
  it does not fault, and every other button is as before.
\<close>

theorem select_sentinel_other:
  assumes "0 \<le> sint newButton" "sint newButton < int NUM_BUTTONS"
    and "0 \<le> sint oldButton" "sint oldButton < int NUM_BUTTONS"
  shows "SelectButton newButton oldButton NONE s =
           bind (button_upd (sint newButton) (\<lambda>b. b\<lparr>selected := True, needsRedraw := True\<rparr>) s)
             (button_upd (sint oldButton) (\<lambda>b. b\<lparr>selected := False, needsRedraw := True\<rparr>))
    \<and> (\<exists>s'. SelectButton newButton oldButton NONE s = Inr s'
          \<and> (\<forall>k. k \<noteq> nat (sint newButton) \<and> k \<noteq> nat (sint oldButton)
                \<longrightarrow> buttons s' ! k = buttons s ! k))"
  using assms by (simp add: SelectButton_def button_upd_in_range bind_def)

theorem select_sentinel_other_witness:
  "0 \<le> sint WIGGLE_MODE \<and> sint WIGGLE_MODE < int NUM_BUTTONS
   \<and> 0 \<le> sint WALK_MODE \<and> sint WALK_MODE < int NUM_BUTTONS
   \<and> (\<exists>s'. SelectButton WIGGLE_MODE WALK_MODE NONE started = Inr s'
         \<and> buttons s' ! 2 = buttons started ! 2)"
proof -
  have r: "0 \<le> sint WIGGLE_MODE" "sint WIGGLE_MODE < int NUM_BUTTONS"
    "0 \<le> sint WALK_MODE" "sint WALK_MODE < int NUM_BUTTONS"
    by (simp_all add: enum_defs)
  from select_sentinel_other [OF r, of started] obtain s'
    where a: "SelectButton WIGGLE_MODE WALK_MODE NONE started = Inr s'"
      and b: "\<forall>k. k \<noteq> nat (sint WIGGLE_MODE) \<and> k \<noteq> nat (sint WALK_MODE)
                \<longrightarrow> buttons s' ! k = buttons started ! k"
    by blast
  from b have "buttons s' ! 2 = buttons started ! 2"
    by (simp add: enum_defs)
  with a r show ?thesis by blast
qed

lemma SelectButton_pair:
  assumes len: "length (buttons s) = NUM_BUTTONS"
    and a: "sint a = int i" "i < NUM_BUTTONS" and b: "sint b = int j" "j < NUM_BUTTONS"
    and ne: "i \<noteq> j"
  shows "\<exists>s'. SelectButton a b NONE s = Inr s' \<and> length (buttons s') = NUM_BUTTONS
           \<and> sliders s' = sliders s
           \<and> selected (buttons s' ! i) \<and> needsRedraw (buttons s' ! i)
           \<and> \<not> selected (buttons s' ! j) \<and> needsRedraw (buttons s' ! j)"
  using assms by (simp add: SelectButton_def button_upd_def bind_def)

lemma SelectButton_triple:
  assumes len: "length (buttons s) = NUM_BUTTONS"
    and a: "sint a = int i" "i < NUM_BUTTONS" and b: "sint b = int j" "j < NUM_BUTTONS"
    and c: "sint c = int k" "k < NUM_BUTTONS" "c \<noteq> NONE"
    and ne: "i \<noteq> j" "i \<noteq> k" "j \<noteq> k"
  shows "\<exists>s'. SelectButton a b c s = Inr s' \<and> length (buttons s') = NUM_BUTTONS
           \<and> sliders s' = sliders s
           \<and> selected (buttons s' ! i) \<and> needsRedraw (buttons s' ! i)
           \<and> \<not> selected (buttons s' ! j) \<and> needsRedraw (buttons s' ! j)
           \<and> \<not> selected (buttons s' ! k) \<and> needsRedraw (buttons s' ! k)"
  using assms by (simp add: SelectButton_def button_upd_def bind_def)

lemma dispatch_branch:
  "buttonPressed s = WALK_MODE \<Longrightarrow>
     dispatch s = SelectButton WALK_MODE WIGGLE_MODE NONE (s\<lparr>controlBits := controlBits s AND NOT WIGGLE_BIT\<rparr>)"
  "buttonPressed s = WIGGLE_MODE \<Longrightarrow>
     dispatch s = SelectButton WIGGLE_MODE WALK_MODE NONE (s\<lparr>controlBits := controlBits s OR WIGGLE_BIT\<rparr>)"
  "buttonPressed s = TRIPOD_GAIT \<Longrightarrow>
     dispatch s = SelectButton TRIPOD_GAIT RIPPLE_GAIT NONE (s\<lparr>controlBits := controlBits s AND NOT RIPPLE_BIT\<rparr>)"
  "buttonPressed s = RIPPLE_GAIT \<Longrightarrow>
     dispatch s = SelectButton RIPPLE_GAIT TRIPOD_GAIT NONE (s\<lparr>controlBits := controlBits s OR RIPPLE_BIT\<rparr>)"
  "buttonPressed s = LOW_BODY \<Longrightarrow>
     dispatch s = SelectButton LOW_BODY HIGH_BODY NONE (s\<lparr>controlBits := controlBits s AND NOT HIGH_BODY_BIT\<rparr>)"
  "buttonPressed s = HIGH_BODY \<Longrightarrow>
     dispatch s = SelectButton HIGH_BODY LOW_BODY NONE (s\<lparr>controlBits := controlBits s OR HIGH_BODY_BIT\<rparr>)"
  "buttonPressed s = LOW_STEP \<Longrightarrow>
     dispatch s = SelectButton LOW_STEP HIGH_STEP NONE (s\<lparr>controlBits := controlBits s AND NOT HIGH_STEP_BIT\<rparr>)"
  "buttonPressed s = HIGH_STEP \<Longrightarrow>
     dispatch s = SelectButton HIGH_STEP LOW_STEP NONE (s\<lparr>controlBits := controlBits s OR HIGH_STEP_BIT\<rparr>)"
  "buttonPressed s = LONG_STEP \<Longrightarrow>
     dispatch s = SelectButton LONG_STEP QUICK_STEP NONE (s\<lparr>controlBits := controlBits s AND NOT QUICK_STEP_BIT\<rparr>)"
  "buttonPressed s = QUICK_STEP \<Longrightarrow>
     dispatch s = SelectButton QUICK_STEP LONG_STEP NONE (s\<lparr>controlBits := controlBits s OR QUICK_STEP_BIT\<rparr>)"
  "buttonPressed s = RED_EYES \<Longrightarrow>
     dispatch s = SelectButton RED_EYES GREEN_EYES BLUE_EYES (Transmit 114 s)"
  "buttonPressed s = GREEN_EYES \<Longrightarrow>
     dispatch s = SelectButton GREEN_EYES RED_EYES BLUE_EYES (Transmit 103 s)"
  "buttonPressed s = BLUE_EYES \<Longrightarrow>
     dispatch s = SelectButton BLUE_EYES RED_EYES GREEN_EYES (Transmit 98 s)"
  by (simp_all add: dispatch_def enum_defs)

lemma pair_selected:
  assumes d: "dispatch s = SelectButton a b NONE s0"
    and len: "length (buttons s0) = NUM_BUTTONS" "length (sliders s0) = NUM_SLIDERS"
    and a: "sint a = int i" "i < NUM_BUTTONS" and b: "sint b = int j" "j < NUM_BUTTONS"
    and ne: "i \<noteq> j" and g: "grp = [a, b] \<or> grp = [b, a]"
  shows "\<exists>s'. dispatch s = Inr s' \<and> wf_state s'
           \<and> filter (\<lambda>g. selected (buttons s' ! nat (sint g))) grp = [a]
           \<and> list_all (\<lambda>g. needsRedraw (buttons s' ! nat (sint g))) grp"
proof -
  from SelectButton_pair [OF len(1) a b ne] obtain s'
    where s': "SelectButton a b NONE s0 = Inr s'" "length (buttons s') = NUM_BUTTONS"
      "sliders s' = sliders s0"
      "selected (buttons s' ! i)" "needsRedraw (buttons s' ! i)"
      "\<not> selected (buttons s' ! j)" "needsRedraw (buttons s' ! j)"
    by blast
  from s' len have "wf_state s'" by (simp add: wf_state_def)
  with s' d g a b show ?thesis by auto
qed

lemma triple_selected:
  assumes d: "dispatch s = SelectButton a b c s0"
    and len: "length (buttons s0) = NUM_BUTTONS" "length (sliders s0) = NUM_SLIDERS"
    and a: "sint a = int i" "i < NUM_BUTTONS" and b: "sint b = int j" "j < NUM_BUTTONS"
    and c: "sint c = int k" "k < NUM_BUTTONS" "c \<noteq> NONE"
    and ne: "i \<noteq> j" "i \<noteq> k" "j \<noteq> k"
    and g: "grp = [a, b, c] \<or> grp = [b, a, c] \<or> grp = [b, c, a]"
  shows "\<exists>s'. dispatch s = Inr s' \<and> wf_state s'
           \<and> filter (\<lambda>g. selected (buttons s' ! nat (sint g))) grp = [a]
           \<and> list_all (\<lambda>g. needsRedraw (buttons s' ! nat (sint g))) grp"
proof -
  from SelectButton_triple [OF len(1) a b c ne] obtain s'
    where s': "SelectButton a b c s0 = Inr s'" "length (buttons s') = NUM_BUTTONS"
      "sliders s' = sliders s0"
      "selected (buttons s' ! i)" "needsRedraw (buttons s' ! i)"
      "\<not> selected (buttons s' ! j)" "needsRedraw (buttons s' ! j)"
      "\<not> selected (buttons s' ! k)" "needsRedraw (buttons s' ! k)"
    by blast
  from s' len have "wf_state s'" by (simp add: wf_state_def)
  with s' d g a b c(1,2) show ?thesis by auto
qed

text \<open>
  C7. When the main loop dispatches a committed press of a button id, \<^verbatim>\<open>SelectButton\<close>
  returns and, in the group of that button, the buttons with \<^verbatim>\<open>selected\<close> set are exactly
  the pressed one; every button of the group has \<^verbatim>\<open>needsRedraw\<close> set.
\<close>

theorem selection_exclusive:
  assumes wf: "wf_state s" and b: "buttonPressed s \<in> set button_ids"
  shows "\<exists>s'. dispatch s = Inr s' \<and> wf_state s'
           \<and> filter (\<lambda>g. selected (buttons s' ! nat (sint g))) (group_of (buttonPressed s))
               = [buttonPressed s]
           \<and> list_all (\<lambda>g. needsRedraw (buttons s' ! nat (sint g))) (group_of (buttonPressed s))"
proof -
  from wf have len: "length (buttons s) = NUM_BUTTONS" "length (sliders s) = NUM_SLIDERS"
    by (simp_all add: wf_state_def)
  from b consider
    "buttonPressed s = WALK_MODE"
    | "buttonPressed s = WIGGLE_MODE"
    | "buttonPressed s = TRIPOD_GAIT"
    | "buttonPressed s = RIPPLE_GAIT"
    | "buttonPressed s = LOW_BODY"
    | "buttonPressed s = HIGH_BODY"
    | "buttonPressed s = LOW_STEP"
    | "buttonPressed s = HIGH_STEP"
    | "buttonPressed s = LONG_STEP"
    | "buttonPressed s = QUICK_STEP"
    | "buttonPressed s = RED_EYES"
    | "buttonPressed s = GREEN_EYES"
    | "buttonPressed s = BLUE_EYES"
    by (auto simp: button_ids_def)
  then show ?thesis
  proof cases
    case 1
    show ?thesis
      unfolding 1
      by (rule pair_selected [where i = 0 and j = 1, OF dispatch_branch(1) [OF 1]])
         (simp_all add: len group_of_def enum_defs)
  next
    case 2
    show ?thesis
      unfolding 2
      by (rule pair_selected [where i = 1 and j = 0, OF dispatch_branch(2) [OF 2]])
         (simp_all add: len group_of_def enum_defs)
  next
    case 3
    show ?thesis
      unfolding 3
      by (rule pair_selected [where i = 2 and j = 3, OF dispatch_branch(3) [OF 3]])
         (simp_all add: len group_of_def enum_defs)
  next
    case 4
    show ?thesis
      unfolding 4
      by (rule pair_selected [where i = 3 and j = 2, OF dispatch_branch(4) [OF 4]])
         (simp_all add: len group_of_def enum_defs)
  next
    case 5
    show ?thesis
      unfolding 5
      by (rule pair_selected [where i = 4 and j = 5, OF dispatch_branch(5) [OF 5]])
         (simp_all add: len group_of_def enum_defs)
  next
    case 6
    show ?thesis
      unfolding 6
      by (rule pair_selected [where i = 5 and j = 4, OF dispatch_branch(6) [OF 6]])
         (simp_all add: len group_of_def enum_defs)
  next
    case 7
    show ?thesis
      unfolding 7
      by (rule pair_selected [where i = 6 and j = 7, OF dispatch_branch(7) [OF 7]])
         (simp_all add: len group_of_def enum_defs)
  next
    case 8
    show ?thesis
      unfolding 8
      by (rule pair_selected [where i = 7 and j = 6, OF dispatch_branch(8) [OF 8]])
         (simp_all add: len group_of_def enum_defs)
  next
    case 9
    show ?thesis
      unfolding 9
      by (rule pair_selected [where i = 8 and j = 9, OF dispatch_branch(9) [OF 9]])
         (simp_all add: len group_of_def enum_defs)
  next
    case 10
    show ?thesis
      unfolding 10
      by (rule pair_selected [where i = 9 and j = 8, OF dispatch_branch(10) [OF 10]])
         (simp_all add: len group_of_def enum_defs)
  next
    case 11
    show ?thesis
      unfolding 11
      by (rule triple_selected [where i = 10 and j = 11 and k = 12, OF dispatch_branch(11) [OF 11]])
         (simp_all add: len Transmit_def group_of_def enum_defs)
  next
    case 12
    show ?thesis
      unfolding 12
      by (rule triple_selected [where i = 11 and j = 10 and k = 12, OF dispatch_branch(12) [OF 12]])
         (simp_all add: len Transmit_def group_of_def enum_defs)
  next
    case 13
    show ?thesis
      unfolding 13
      by (rule triple_selected [where i = 12 and j = 10 and k = 11, OF dispatch_branch(13) [OF 13]])
         (simp_all add: len Transmit_def group_of_def enum_defs)
  qed
qed

theorem selection_exclusive_witness:
  "wf_state (started\<lparr>buttonPressed := WIGGLE_MODE\<rparr>)
   \<and> buttonPressed (started\<lparr>buttonPressed := WIGGLE_MODE\<rparr>) \<in> set button_ids
   \<and> (\<exists>s'. dispatch (started\<lparr>buttonPressed := WIGGLE_MODE\<rparr>) = Inr s'
         \<and> filter (\<lambda>g. selected (buttons s' ! nat (sint g))) [WALK_MODE, WIGGLE_MODE]
             = [WIGGLE_MODE])"
proof -
  have w: "wf_state (started\<lparr>buttonPressed := WIGGLE_MODE\<rparr>)"
    using wf_started by (simp add: wf_state_def)
  have b: "buttonPressed (started\<lparr>buttonPressed := WIGGLE_MODE\<rparr>) \<in> set button_ids"
    by (simp add: button_ids_def)
  have g: "group_of WIGGLE_MODE = [WALK_MODE, WIGGLE_MODE]"
    by (simp add: group_of_def)
  have p: "buttonPressed (started\<lparr>buttonPressed := WIGGLE_MODE\<rparr>) = WIGGLE_MODE"
    by simp
  from selection_exclusive [OF w b] obtain s'
    where "dispatch (started\<lparr>buttonPressed := WIGGLE_MODE\<rparr>) = Inr s'"
      and "filter (\<lambda>g. selected (buttons s' ! nat (sint g))) [WALK_MODE, WIGGLE_MODE]
             = [WIGGLE_MODE]"
    unfolding p g by blast
  with w b show ?thesis by blast
qed

section \<open>Touch sessions\<close>

lemma HandleTouchUp_unarmed:
  "\<not> touchTimer s <s 3 \<Longrightarrow> touchedButton s = NONE \<Longrightarrow> HandleTouchUp s = Inl (OutOfBounds (- 1))"
  by (simp add: HandleTouchUp_def button_at_def bind_def NONE_def)

lemma upt_13: "[0..<13] = [0,1,2,3,4,5,6,7,8,9,10,11,12]"
  by code_simp

lemma upt_NUM_BUTTONS: "[0..<NUM_BUTTONS] = [0,1,2,3,4,5,6,7,8,9,10,11,12]"
  by (simp add: NUM_BUTTONS_def upt_13)

lemma upt_2: "[0..<2] = [0,1]"
  by code_simp

lemma upt_NUM_SLIDERS: "[0..<NUM_SLIDERS] = [0,1]"
  by (simp add: NUM_SLIDERS_def upt_2)

lemma ButtonTouched_cong:
  "touchX s' = touchX s \<Longrightarrow> touchY s' = touchY s \<Longrightarrow> currentPage s' = currentPage s
   \<Longrightarrow> ButtonTouched s' b = ButtonTouched s b"
  by (simp add: ButtonTouched_def)

lemma SliderTouched_cong:
  "touchX s' = touchX s \<Longrightarrow> touchY s' = touchY s \<Longrightarrow> currentPage s' = currentPage s
   \<Longrightarrow> SliderTouched s' sl = SliderTouched s sl"
  by (simp add: SliderTouched_def)

lemma fold_armButton:
  "fold armButton ns s =
     s\<lparr>touchedButton :=
         (if filter (\<lambda>n. ButtonTouched s (buttons s ! n)) ns = [] then touchedButton s
          else of_nat (last (filter (\<lambda>n. ButtonTouched s (buttons s ! n)) ns)))\<rparr>"
proof (induction ns arbitrary: s)
  case Nil
  show ?case by simp
next
  case (Cons n ns)
  have same: "ButtonTouched (s\<lparr>touchedButton := v\<rparr>) b = ButtonTouched s b" for v b
    by (rule ButtonTouched_cong) simp_all
  show ?case
  proof (cases "ButtonTouched s (buttons s ! n)")
    case True
    then have "fold armButton (n # ns) s = fold armButton ns (s\<lparr>touchedButton := of_nat n\<rparr>)"
      by (simp add: armButton_def)
    with True show ?thesis
      by (simp add: Cons.IH [of "s\<lparr>touchedButton := of_nat n\<rparr>"] same)
  next
    case False
    then have "fold armButton (n # ns) s = fold armButton ns s"
      by (simp add: armButton_def)
    with False show ?thesis
      by (simp add: Cons.IH [of s])
  qed
qed

lemma fold_armSlider:
  "fold armSlider ns s =
     s\<lparr>touchedSlider :=
         (if filter (\<lambda>n. SliderTouched s (sliders s ! n)) ns = [] then touchedSlider s
          else of_nat (last (filter (\<lambda>n. SliderTouched s (sliders s ! n)) ns)))\<rparr>"
proof (induction ns arbitrary: s)
  case Nil
  show ?case by simp
next
  case (Cons n ns)
  have same: "SliderTouched (s\<lparr>touchedSlider := v\<rparr>) b = SliderTouched s b" for v b
    by (rule SliderTouched_cong) simp_all
  show ?case
  proof (cases "SliderTouched s (sliders s ! n)")
    case True
    then have "fold armSlider (n # ns) s = fold armSlider ns (s\<lparr>touchedSlider := of_nat n\<rparr>)"
      by (simp add: armSlider_def)
    with True show ?thesis
      by (simp add: Cons.IH [of "s\<lparr>touchedSlider := of_nat n\<rparr>"] same)
  next
    case False
    then have "fold armSlider (n # ns) s = fold armSlider ns s"
      by (simp add: armSlider_def)
    with False show ?thesis
      by (simp add: Cons.IH [of s])
  qed
qed

text \<open>
  C10. At the settle tick (the poll that takes \<^verbatim>\<open>touchTimer\<close> from 2 to 3) the handler
  returns, and the armed button is the last index, in the order \<open>0, 1, \<dots>\<close> of the loop,
  whose hit test passes at the new touch position; when no hit test passes the armed
  button is left as it was. The same holds for the sliders.
\<close>

theorem last_hit_wins:
  assumes "touchTimer s = 2"
  shows "\<exists>s'. TIMER1_OVF (Some (x, y)) s = Inr s'
     \<and> touchedButton s' =
         (if filter (\<lambda>n. ButtonTouched (s\<lparr>touchX := x, touchY := y\<rparr>) (buttons s ! n)) [0..<NUM_BUTTONS] = []
          then touchedButton s
          else of_nat (last (filter (\<lambda>n. ButtonTouched (s\<lparr>touchX := x, touchY := y\<rparr>) (buttons s ! n))
                               [0..<NUM_BUTTONS])))
     \<and> touchedSlider s' =
         (if filter (\<lambda>n. SliderTouched (s\<lparr>touchX := x, touchY := y\<rparr>) (sliders s ! n)) [0..<NUM_SLIDERS] = []
          then touchedSlider s
          else of_nat (last (filter (\<lambda>n. SliderTouched (s\<lparr>touchX := x, touchY := y\<rparr>) (sliders s ! n))
                               [0..<NUM_SLIDERS])))"
proof -
  let ?s = "s\<lparr>touchTimer := 3, touchX := x, touchY := y\<rparr>"
  have b: "ButtonTouched ?s b = ButtonTouched (s\<lparr>touchX := x, touchY := y\<rparr>) b" for b
    by (rule ButtonTouched_cong) simp_all
  have c: "SliderTouched (?s\<lparr>touchedButton := v\<rparr>) sl = SliderTouched (s\<lparr>touchX := x, touchY := y\<rparr>) sl" for sl v
    by (rule SliderTouched_cong) simp_all
  have "TIMER1_OVF (Some (x, y)) s
          = Inr (fold armSlider [0..<NUM_SLIDERS] (fold armButton [0..<NUM_BUTTONS] ?s))"
    using assms by (simp add: TIMER1_OVF_def HandleTouchDown_def)
  then show ?thesis
    by (simp add: fold_armButton fold_armSlider b c)
qed


lemma hits_started_0_10:
  assumes "buttons s = buttons started" "sliders s = sliders started"
    and "touchX s' = 0" "touchY s' = 10" "currentPage s' = MAIN_PAGE"
  shows "filter (\<lambda>n. ButtonTouched s' (buttons s ! n)) [0..<NUM_BUTTONS] = []"
    and "filter (\<lambda>n. SliderTouched s' (sliders s ! n)) [0..<NUM_SLIDERS] = [0, 1]"
  using assms
  by (simp_all add: ButtonTouched_def SliderTouched_def buttons_started started_fields
      new_Button_def zero_Slider_def enum_defs upt_13 upt_2)

lemma hits_overlap_140_40:
  assumes "buttons s = (buttons started)[1 := new_Button 140 30 100 BLUE ''Wiggle'' False]"
    and "touchX s' = 140" "touchY s' = 40" "currentPage s' = MAIN_PAGE"
  shows "filter (\<lambda>n. ButtonTouched s' (buttons s ! n)) [0..<NUM_BUTTONS] = [0, 1]"
  using assms
  by (simp add: ButtonTouched_def buttons_started new_Button_def enum_defs upt_13)

theorem last_hit_wins_witness:
  "touchTimer (started\<lparr>touchTimer := 2\<rparr>) = 2
   \<and> (\<exists>s'. TIMER1_OVF (Some (0, 10)) (started\<lparr>touchTimer := 2\<rparr>) = Inr s'
         \<and> touchedButton s' = NONE \<and> touchedSlider s' = 1)
   \<and> touchTimer (started\<lparr>touchTimer := 2,
          buttons := (buttons started)[1 := new_Button 140 30 100 BLUE ''Wiggle'' False]\<rparr>) = 2
   \<and> (\<exists>s'. TIMER1_OVF (Some (140, 40))
               (started\<lparr>touchTimer := 2,
                  buttons := (buttons started)[1 := new_Button 140 30 100 BLUE ''Wiggle'' False]\<rparr>) = Inr s'
         \<and> touchedButton s' = 1)"
proof -
  let ?A = "started\<lparr>touchTimer := 2\<rparr>"
  let ?B = "started\<lparr>touchTimer := 2,
          buttons := (buttons started)[1 := new_Button 140 30 100 BLUE ''Wiggle'' False]\<rparr>"
  have tA: "touchTimer ?A = 2" and tB: "touchTimer ?B = 2"
    by simp_all
  have bA: "filter (\<lambda>n. ButtonTouched (?A\<lparr>touchX := 0, touchY := 10\<rparr>) (buttons ?A ! n))
              [0..<NUM_BUTTONS] = []"
    by (rule hits_started_0_10) (simp_all add: started_fields)
  have sA: "filter (\<lambda>n. SliderTouched (?A\<lparr>touchX := 0, touchY := 10\<rparr>) (sliders ?A ! n))
              [0..<NUM_SLIDERS] = [0, 1]"
    by (rule hits_started_0_10) (simp_all add: started_fields)
  have bB: "filter (\<lambda>n. ButtonTouched (?B\<lparr>touchX := 140, touchY := 40\<rparr>) (buttons ?B ! n))
              [0..<NUM_BUTTONS] = [0, 1]"
    by (rule hits_overlap_140_40) (simp_all add: started_fields)
  from last_hit_wins [OF tA, of 0 10] obtain a
    where a: "TIMER1_OVF (Some (0, 10)) ?A = Inr a"
      "touchedButton a = touchedButton ?A" "touchedSlider a = of_nat (last [0, 1])"
    unfolding bA sA by auto
  from last_hit_wins [OF tB, of 140 40] obtain b
    where b: "TIMER1_OVF (Some (140, 40)) ?B = Inr b" "touchedButton b = of_nat (last [0, 1])"
    unfolding bB by auto
  have "touchedButton a = NONE" "touchedSlider a = 1" "touchedButton b = 1"
    using a b by (simp_all add: started_fields)
  with a(1) b(1) tA tB show ?thesis by blast
qed


lemma poll_early:
  assumes "touchTimer s = 0 \<or> touchTimer s = 1"
  shows "TIMER1_OVF (Some (x, y)) s
           = Inr (s\<lparr>touchTimer := touchTimer s + 1, touchX := x, touchY := y\<rparr>)"
  using assms by (auto simp: TIMER1_OVF_def HandleTouchDown_def Let_def word_sless_alt)

lemma poll_settle:
  assumes "touchTimer s = 2"
  shows "TIMER1_OVF (Some (x, y)) s
           = Inr (fold armSlider [0..<NUM_SLIDERS]
                   (fold armButton [0..<NUM_BUTTONS] (s\<lparr>touchTimer := 3, touchX := x, touchY := y\<rparr>)))"
  using assms by (simp add: TIMER1_OVF_def HandleTouchDown_def)

lemma poll_none_early:
  assumes "touchTimer s <s 3"
  shows "TIMER1_OVF None s = Inr (s\<lparr>touchTimer := 0, touchX := - 1, touchY := - 1\<rparr>)"
  using assms by (simp add: TIMER1_OVF_def HandleTouchUp_def bind_def)

lemma hits_started_10_10:
  assumes "buttons s = buttons started" "sliders s = sliders started"
    and "touchX s' = 10" "touchY s' = 10" "currentPage s' = MAIN_PAGE"
  shows "filter (\<lambda>n. ButtonTouched s' (buttons s ! n)) [0..<NUM_BUTTONS] = []"
    and "filter (\<lambda>n. SliderTouched s' (sliders s ! n)) [0..<NUM_SLIDERS] = []"
  using assms
  by (simp_all add: ButtonTouched_def SliderTouched_def buttons_started started_fields
      new_Button_def zero_Slider_def enum_defs upt_13 upt_2)

text \<open>
  C3. The claim fails on the code: a touch that lasts three polls at a position outside
  every button leaves \<^verbatim>\<open>touchedButton\<close> at \<^verbatim>\<open>NONE\<close>, and the release then evaluates
  \<^verbatim>\<open>ButtonTouched(&buttons[-1])\<close>.
\<close>

theorem release_without_armed_button:
  "firmware adc_centred
     [Poll (Some (10, 10)), Poll (Some (10, 10)), Poll (Some (10, 10)), Poll None]
   = Inl (OutOfBounds (- 1))"
proof -
  let ?s1 = "started\<lparr>touchTimer := 1, touchX := 10, touchY := 10\<rparr>"
  let ?s2 = "started\<lparr>touchTimer := 2, touchX := 10, touchY := 10\<rparr>"
  let ?s3 = "started\<lparr>touchTimer := 3, touchX := 10, touchY := 10\<rparr>"
  have 1: "TIMER1_OVF (Some (10, 10)) started = Inr ?s1"
    by (simp add: poll_early started_fields)
  have 2: "TIMER1_OVF (Some (10, 10)) ?s1 = Inr ?s2"
    by (simp add: poll_early)
  have b: "filter (\<lambda>n. ButtonTouched ?s3 (buttons ?s3 ! n)) [0..<NUM_BUTTONS] = []"
    by (rule hits_started_10_10) (simp_all add: started_fields)
  have sl: "filter (\<lambda>n. SliderTouched ?s3 (sliders ?s3 ! n)) [0..<NUM_SLIDERS] = []"
    by (rule hits_started_10_10) (simp_all add: started_fields)
  have "fold armButton [0..<NUM_BUTTONS] ?s3 = ?s3"
    unfolding fold_armButton b by simp
  moreover have "fold armSlider [0..<NUM_SLIDERS] ?s3 = ?s3"
    unfolding fold_armSlider sl by simp
  ultimately have 3: "TIMER1_OVF (Some (10, 10)) ?s2 = Inr ?s3"
    by (simp add: poll_settle)
  have "HandleTouchUp ?s3 = Inl (OutOfBounds (- 1))"
    by (rule HandleTouchUp_unarmed) (simp_all add: started_fields)
  then have 4: "TIMER1_OVF None ?s3 = Inl (OutOfBounds (- 1))"
    by (simp add: TIMER1_OVF_def bind_def word_sless_alt)
  show ?thesis
    by (simp add: firmware_def main_init_eq bind_def 1 2 3 4)
qed

text \<open>
  C4. A touch session that starts with \<^verbatim>\<open>touchTimer = 0\<close> and has fewer than three polls
  with touch data before the poll without touch data runs without a fault and leaves
  \<^verbatim>\<open>buttonPressed\<close>, the armed button, the armed slider, every slider and every button
  as they were.
\<close>

theorem debounce_short_session:
  assumes "touchTimer s = 0" and "length ts < 3"
  shows "\<exists>s'. run adc (map (\<lambda>t. Poll (Some t)) ts @ [Poll None]) s = Inr s'
           \<and> buttonPressed s' = buttonPressed s \<and> touchedButton s' = touchedButton s
           \<and> touchedSlider s' = touchedSlider s \<and> sliders s' = sliders s
           \<and> buttons s' = buttons s"
proof -
  from assms(2) consider "ts = []" | p where "ts = [p]" | p q where "ts = [p, q]"
    by (cases ts; cases "tl ts"; cases "tl (tl ts)") auto
  then show ?thesis
  proof cases
    case 1
    with assms(1) show ?thesis
      by (simp add: bind_def poll_none_early word_sless_alt)
  next
    case 2
    obtain x y where p: "p = (x, y)" by (cases p)
    from assms(1) show ?thesis
      by (simp add: 2 p bind_def poll_early poll_none_early word_sless_alt)
  next
    case 3
    obtain x y where p: "p = (x, y)" by (cases p)
    obtain u v where q: "q = (u, v)" by (cases q)
    from assms(1) show ?thesis
      by (simp add: 3 p q bind_def poll_early poll_none_early word_sless_alt)
  qed
qed

theorem debounce_short_session_witness:
  "touchTimer started = 0 \<and> length [(260, 40), (260, 40) :: U16 \<times> U16] < 3
   \<and> (\<exists>s'. run adc_centred [Poll (Some (260, 40)), Poll (Some (260, 40)), Poll None] started = Inr s'
         \<and> buttonPressed s' = NONE \<and> touchedButton s' = NONE \<and> touchedSlider s' = NONE
         \<and> sliders s' = sliders started \<and> buttons s' = buttons started)"
  using debounce_short_session [of started "[(260, 40), (260, 40)]" adc_centred]
  by (simp add: started_fields)

section \<open>What each operation leaves alone\<close>

lemma button_upd_frame:
  "button_upd i f s = Inr s' \<Longrightarrow> \<exists>bs. s' = s\<lparr>buttons := bs\<rparr> \<and> length bs = length (buttons s)"
  by (auto simp: button_upd_def split: if_splits)

lemma SelectButton_frame:
  assumes "SelectButton a b c s = Inr s'"
  shows "\<exists>bs. s' = s\<lparr>buttons := bs\<rparr> \<and> length bs = length (buttons s)"
proof -
  from assms obtain s1 s2
    where 1: "button_upd (sint a) (\<lambda>b. b\<lparr>selected := True, needsRedraw := True\<rparr>) s = Inr s1"
      and 2: "button_upd (sint b) (\<lambda>b. b\<lparr>selected := False, needsRedraw := True\<rparr>) s1 = Inr s2"
      and 3: "s' = s2 \<or> button_upd (sint c) (\<lambda>b. b\<lparr>selected := False, needsRedraw := True\<rparr>) s2 = Inr s'"
    by (auto simp: SelectButton_def bind_def split: sum.splits if_splits)
  from button_upd_frame [OF 1] obtain bs1 where b1: "s1 = s\<lparr>buttons := bs1\<rparr>" "length bs1 = length (buttons s)"
    by blast
  from button_upd_frame [OF 2] b1 obtain bs2 where b2: "s2 = s\<lparr>buttons := bs2\<rparr>" "length bs2 = length (buttons s)"
    by auto
  from 3 show ?thesis
  proof
    assume "s' = s2" with b2 show ?thesis by blast
  next
    assume "button_upd (sint c) (\<lambda>b. b\<lparr>selected := False, needsRedraw := True\<rparr>) s2 = Inr s'"
    from button_upd_frame [OF this] b2 show ?thesis by auto
  qed
qed

lemma dispatch_other:
  "buttonPressed s \<notin> set button_ids \<Longrightarrow> dispatch s = Inr s"
  by (simp add: dispatch_def button_ids_def Let_def)

lemma dispatch_shape:
  "dispatch s = Inr s
   \<or> (\<exists>a b c cb t. dispatch s = SelectButton a b c (s\<lparr>controlBits := cb, tx := t\<rparr>))"
proof (cases "buttonPressed s \<in> set button_ids")
  case False
  then show ?thesis by (simp add: dispatch_other)
next
  case True
  then consider
    "buttonPressed s = WALK_MODE"
    | "buttonPressed s = WIGGLE_MODE"
    | "buttonPressed s = TRIPOD_GAIT"
    | "buttonPressed s = RIPPLE_GAIT"
    | "buttonPressed s = LOW_BODY"
    | "buttonPressed s = HIGH_BODY"
    | "buttonPressed s = LOW_STEP"
    | "buttonPressed s = HIGH_STEP"
    | "buttonPressed s = LONG_STEP"
    | "buttonPressed s = QUICK_STEP"
    | "buttonPressed s = RED_EYES"
    | "buttonPressed s = GREEN_EYES"
    | "buttonPressed s = BLUE_EYES"
    by (auto simp: button_ids_def)
  then show ?thesis
  proof cases
    case 1
    from dispatch_branch(1) [OF 1]
    have "dispatch s = SelectButton WALK_MODE WIGGLE_MODE NONE (s\<lparr>controlBits := controlBits s AND NOT WIGGLE_BIT, tx := tx s\<rparr>)"
      by simp
    then show ?thesis by blast
  next
    case 2
    from dispatch_branch(2) [OF 2]
    have "dispatch s = SelectButton WIGGLE_MODE WALK_MODE NONE (s\<lparr>controlBits := controlBits s OR WIGGLE_BIT, tx := tx s\<rparr>)"
      by simp
    then show ?thesis by blast
  next
    case 3
    from dispatch_branch(3) [OF 3]
    have "dispatch s = SelectButton TRIPOD_GAIT RIPPLE_GAIT NONE (s\<lparr>controlBits := controlBits s AND NOT RIPPLE_BIT, tx := tx s\<rparr>)"
      by simp
    then show ?thesis by blast
  next
    case 4
    from dispatch_branch(4) [OF 4]
    have "dispatch s = SelectButton RIPPLE_GAIT TRIPOD_GAIT NONE (s\<lparr>controlBits := controlBits s OR RIPPLE_BIT, tx := tx s\<rparr>)"
      by simp
    then show ?thesis by blast
  next
    case 5
    from dispatch_branch(5) [OF 5]
    have "dispatch s = SelectButton LOW_BODY HIGH_BODY NONE (s\<lparr>controlBits := controlBits s AND NOT HIGH_BODY_BIT, tx := tx s\<rparr>)"
      by simp
    then show ?thesis by blast
  next
    case 6
    from dispatch_branch(6) [OF 6]
    have "dispatch s = SelectButton HIGH_BODY LOW_BODY NONE (s\<lparr>controlBits := controlBits s OR HIGH_BODY_BIT, tx := tx s\<rparr>)"
      by simp
    then show ?thesis by blast
  next
    case 7
    from dispatch_branch(7) [OF 7]
    have "dispatch s = SelectButton LOW_STEP HIGH_STEP NONE (s\<lparr>controlBits := controlBits s AND NOT HIGH_STEP_BIT, tx := tx s\<rparr>)"
      by simp
    then show ?thesis by blast
  next
    case 8
    from dispatch_branch(8) [OF 8]
    have "dispatch s = SelectButton HIGH_STEP LOW_STEP NONE (s\<lparr>controlBits := controlBits s OR HIGH_STEP_BIT, tx := tx s\<rparr>)"
      by simp
    then show ?thesis by blast
  next
    case 9
    from dispatch_branch(9) [OF 9]
    have "dispatch s = SelectButton LONG_STEP QUICK_STEP NONE (s\<lparr>controlBits := controlBits s AND NOT QUICK_STEP_BIT, tx := tx s\<rparr>)"
      by simp
    then show ?thesis by blast
  next
    case 10
    from dispatch_branch(10) [OF 10]
    have "dispatch s = SelectButton QUICK_STEP LONG_STEP NONE (s\<lparr>controlBits := controlBits s OR QUICK_STEP_BIT, tx := tx s\<rparr>)"
      by simp
    then show ?thesis by blast
  next
    case 11
    from dispatch_branch(11) [OF 11]
    have "dispatch s = SelectButton RED_EYES GREEN_EYES BLUE_EYES (s\<lparr>controlBits := controlBits s, tx := tx s @ [114]\<rparr>)"
      by (simp add: Transmit_def)
    then show ?thesis by blast
  next
    case 12
    from dispatch_branch(12) [OF 12]
    have "dispatch s = SelectButton GREEN_EYES RED_EYES BLUE_EYES (s\<lparr>controlBits := controlBits s, tx := tx s @ [103]\<rparr>)"
      by (simp add: Transmit_def)
    then show ?thesis by blast
  next
    case 13
    from dispatch_branch(13) [OF 13]
    have "dispatch s = SelectButton BLUE_EYES RED_EYES GREEN_EYES (s\<lparr>controlBits := controlBits s, tx := tx s @ [98]\<rparr>)"
      by (simp add: Transmit_def)
    then show ?thesis by blast
  qed
qed

lemma dispatch_frame:
  assumes "dispatch s = Inr s'"
  shows "\<exists>bs cb t. s' = s\<lparr>controlBits := cb, tx := t, buttons := bs\<rparr> \<and> length bs = length (buttons s)"
proof -
  from dispatch_shape [of s] show ?thesis
  proof
    assume "dispatch s = Inr s"
    with assms have "s' = s\<lparr>controlBits := controlBits s, tx := tx s, buttons := buttons s\<rparr>"
      by simp
    then show ?thesis by blast
  next
    assume "\<exists>a b c cb t. dispatch s = SelectButton a b c (s\<lparr>controlBits := cb, tx := t\<rparr>)"
    then obtain a b c cb t where "SelectButton a b c (s\<lparr>controlBits := cb, tx := t\<rparr>) = Inr s'"
      using assms by auto
    from SelectButton_frame [OF this] obtain bs
      where "s' = s\<lparr>controlBits := cb, tx := t, buttons := bs\<rparr>" "length bs = length (buttons s)"
      by auto
    then show ?thesis by blast
  qed
qed

lemma kept_refl: "kept s s"
  by (simp add: kept_def)

lemma kept_trans: "kept s s1 \<Longrightarrow> kept s1 s2 \<Longrightarrow> kept s s2"
  by (simp add: kept_def)

lemma dragSlider_kept: "dragSlider n s = Inr s' \<Longrightarrow> kept s s'"
  by (auto simp: dragSlider_def Let_def bind_def kept_def split: if_splits sum.splits)

lemma forEach_dragSlider_kept: "forEach ns dragSlider s = Inr s' \<Longrightarrow> kept s s'"
proof (induction ns arbitrary: s)
  case Nil
  then show ?case by (simp add: kept_refl)
next
  case (Cons n ns)
  from Cons.prems obtain s1 where 1: "dragSlider n s = Inr s1" and 2: "forEach ns dragSlider s1 = Inr s'"
    by (auto simp: bind_def split: sum.splits)
  from dragSlider_kept [OF 1] Cons.IH [OF 2] show ?case
    by (rule kept_trans)
qed

lemma HandleTouchDown_kept:
  assumes "HandleTouchDown x y s = Inr s'"
  shows "kept s s'"
proof -
  let ?s = "s\<lparr>touchX := x, touchY := y\<rparr>"
  have k0: "kept s ?s" by (simp add: kept_def)
  show ?thesis
  proof (cases "touchTimer s = 3")
    case True
    then have "HandleTouchDown x y s
        = Inr (fold armSlider [0..<NUM_SLIDERS] (fold armButton [0..<NUM_BUTTONS] ?s))"
      by (simp add: HandleTouchDown_def)
    with assms have "s' = fold armSlider [0..<NUM_SLIDERS] (fold armButton [0..<NUM_BUTTONS] ?s)"
      by simp
    then show ?thesis
      unfolding fold_armButton fold_armSlider by (simp add: kept_def)
  next
    case False
    show ?thesis
    proof (cases "3 <s touchTimer s")
      case True
      with False have "HandleTouchDown x y s = forEach [0..<NUM_SLIDERS] dragSlider ?s"
        by (simp add: HandleTouchDown_def)
      with assms have "forEach [0..<NUM_SLIDERS] dragSlider ?s = Inr s'"
        by simp
      from k0 forEach_dragSlider_kept [OF this] show ?thesis
        by (rule kept_trans)
    next
      case nd: False
      with False have "HandleTouchDown x y s = Inr ?s"
        by (simp add: HandleTouchDown_def)
      with assms k0 show ?thesis by simp
    qed
  qed
qed

lemma HandleTouchUp_kept: "HandleTouchUp s = Inr s' \<Longrightarrow> kept s s'"
  by (auto simp: HandleTouchUp_def bind_def kept_def split: if_splits sum.splits)

lemma TIMER1_OVF_kept:
  assumes "TIMER1_OVF touch s = Inr s'"
  shows "kept s s'"
proof (cases touch)
  case None
  with assms obtain s1 where 1: "s1 = s \<or> HandleTouchUp s = Inr s1"
    and 2: "s' = s1\<lparr>touchTimer := 0, touchX := - 1, touchY := - 1\<rparr>"
    by (auto simp: TIMER1_OVF_def bind_def split: if_splits sum.splits)
  from 1 have "kept s s1" by (auto simp: kept_refl HandleTouchUp_kept)
  with 2 show ?thesis by (simp add: kept_def)
next
  case (Some p)
  obtain x y where p: "p = (x, y)" by (cases p)
  from assms have "HandleTouchDown x y (s\<lparr>touchTimer := touchTimer s + 1\<rparr>) = Inr s'"
    by (simp add: TIMER1_OVF_def Some p)
  from HandleTouchDown_kept [OF this] show ?thesis by (simp add: kept_def)
qed

lemma fold_renderButton_frame:
  "\<exists>bs. fold renderButton ns s = s\<lparr>buttons := bs\<rparr> \<and> length bs = length (buttons s)"
proof (induction ns arbitrary: s)
  case Nil
  show ?case by (rule exI [of _ "buttons s"]) simp
next
  case (Cons n ns)
  obtain b where r: "renderButton n s = s\<lparr>buttons := (buttons s)[n := b]\<rparr>"
    by (simp add: renderButton_def Let_def)
  from Cons.IH [of "s\<lparr>buttons := (buttons s)[n := b]\<rparr>"] obtain bs
    where bs: "fold renderButton ns (s\<lparr>buttons := (buttons s)[n := b]\<rparr>)
                 = s\<lparr>buttons := (buttons s)[n := b]\<rparr>\<lparr>buttons := bs\<rparr>"
      "length bs = length (buttons (s\<lparr>buttons := (buttons s)[n := b]\<rparr>))"
    by blast
  show ?case
    by (rule exI [of _ bs]) (simp add: r bs)
qed

lemma fold_renderSlider_frame:
  "\<exists>sl. fold renderSlider ns s = s\<lparr>sliders := sl\<rparr> \<and> length sl = length (sliders s)"
proof (induction ns arbitrary: s)
  case Nil
  show ?case by (rule exI [of _ "sliders s"]) simp
next
  case (Cons n ns)
  have "\<exists>sl. renderSlider n s = s\<lparr>sliders := sl\<rparr> \<and> length sl = length (sliders s)"
  proof (cases "s_page (sliders s ! n) = currentPage s
                 \<and> oldValue (sliders s ! n) \<noteq> s_value (sliders s ! n)")
    case True
    then have "renderSlider n s
        = s\<lparr>sliders := (sliders s)[n := (sliders s ! n)\<lparr>oldValue := s_value (sliders s ! n)\<rparr>]\<rparr>"
      by (simp add: renderSlider_def Let_def)
    then show ?thesis
      by (intro exI [of _ "(sliders s)[n := (sliders s ! n)\<lparr>oldValue := s_value (sliders s ! n)\<rparr>]"])
         simp
  next
    case False
    then have "renderSlider n s = s" by (auto simp: renderSlider_def Let_def)
    then show ?thesis by (intro exI [of _ "sliders s"]) simp
  qed
  then obtain sl where r: "renderSlider n s = s\<lparr>sliders := sl\<rparr>" "length sl = length (sliders s)"
    by blast
  from Cons.IH [of "s\<lparr>sliders := sl\<rparr>"] obtain sl'
    where sl': "fold renderSlider ns (s\<lparr>sliders := sl\<rparr>) = s\<lparr>sliders := sl\<rparr>\<lparr>sliders := sl'\<rparr>"
      "length sl' = length (sliders (s\<lparr>sliders := sl\<rparr>))"
    by blast
  show ?case
    by (rule exI [of _ sl']) (simp add: r sl')
qed

lemma receiveStatus_hexapodSoC:
  "hexapodSoC (receiveStatus rx s) =
     (case rx of None \<Rightarrow> hexapodSoC s
      | Some b \<Rightarrow> if ucast b <s hexapodSoC s then ucast b else hexapodSoC s)"
  by (simp add: receiveStatus_def Let_def split: option.splits)

lemma receiveStatus_le: "hexapodSoC (receiveStatus rx s) \<le>s hexapodSoC s"
  by (simp add: receiveStatus_hexapodSoC word_sle_eq word_sless_alt split: option.splits)

lemma receiveStatus_other:
  "controllerSoC (receiveStatus rx s) = controllerSoC s"
  "currentPage (receiveStatus rx s) = currentPage s"
  "sliders (receiveStatus rx s) = sliders s"
  "buttons (receiveStatus rx s) = buttons s"
  "joystick_command_character (receiveStatus rx s) = joystick_command_character s"
  by (simp_all add: receiveStatus_def Let_def split: option.splits)

lemma cycle10Hz_other:
  "hexapodSoC (cycle10Hz adc s) = hexapodSoC s"
  "currentPage (cycle10Hz adc s) = currentPage s"
  "sliders (cycle10Hz adc s) = sliders s"
  "buttons (cycle10Hz adc s) = buttons s"
  "joystick_command_character (cycle10Hz adc s) = joystick_command_character s"
  by (simp_all add: cycle10Hz_def transmitFrame_def Transmit_def sampleJoysticks_def
      sampleBattery_def ReadADC_def Let_def)

lemma cycle10Hz_le: "controllerSoC (cycle10Hz adc s) \<le>s controllerSoC s"
  by (simp add: cycle10Hz_fields word_sle_eq word_sless_alt)

lemma tickLoop_other:
  "hexapodSoC (tickLoop adc s) = hexapodSoC s \<and> currentPage (tickLoop adc s) = currentPage s
   \<and> sliders (tickLoop adc s) = sliders s \<and> buttons (tickLoop adc s) = buttons s
   \<and> joystick_command_character (tickLoop adc s) = joystick_command_character s
   \<and> controllerSoC (tickLoop adc s) \<le>s controllerSoC s"
proof (induction adc s rule: tickLoop.induct)
  case (1 adc s)
  show ?case
  proof (cases "781 <s ticks s")
    case True
    let ?s1 = "cycle10Hz adc (s\<lparr>ticks := ticks s - 781\<rparr>)"
    have "controllerSoC ?s1 \<le>s controllerSoC s"
      using cycle10Hz_le [of adc "s\<lparr>ticks := ticks s - 781\<rparr>"] by simp
    with "1.IH" [OF True] have "controllerSoC (tickLoop adc ?s1) \<le>s controllerSoC s"
      by (auto simp: word_sle_eq)
    moreover have "tickLoop adc s = tickLoop adc ?s1"
      using True by (rule tickLoop_above)
    ultimately show ?thesis
      using "1.IH" [OF True] by (simp add: cycle10Hz_other)
  next
    case False
    then show ?thesis by (simp add: tickLoop_below)
  qed
qed

lemma HandleTouchUp_widgets:
  "HandleTouchUp s = Inr s' \<Longrightarrow> sliders s' = sliders s \<and> buttons s' = buttons s"
  by (auto simp: HandleTouchUp_def bind_def split: if_splits sum.splits)

lemma render_kept:
  "kept s ((RenderSliders (RenderButtons s))\<lparr>displayNeedsFullRedraw := False\<rparr>)"
proof -
  from fold_renderButton_frame [of "[0..<NUM_BUTTONS]" s] obtain bs
    where b: "RenderButtons s = s\<lparr>buttons := bs\<rparr>"
    by (auto simp: RenderButtons_def)
  from fold_renderSlider_frame [of "[0..<NUM_SLIDERS]" "s\<lparr>buttons := bs\<rparr>"] obtain sl
    where "RenderSliders (s\<lparr>buttons := bs\<rparr>) = s\<lparr>buttons := bs\<rparr>\<lparr>sliders := sl\<rparr>"
    by (auto simp: RenderSliders_def)
  with b show ?thesis by (simp add: kept_def)
qed

lemma main_pass_soc:
  assumes "main_pass adc rx s = Inr s'"
  shows "hexapodSoC s' \<le>s hexapodSoC s \<and> controllerSoC s' \<le>s controllerSoC s
         \<and> currentPage s' = currentPage s
         \<and> joystick_command_character s' = joystick_command_character s"
proof -
  from assms obtain s1 where d: "dispatch s = Inr s1"
    and s': "s' = (RenderSliders (RenderButtons
               (tickLoop adc (receiveStatus rx (s1\<lparr>buttonPressed := NONE\<rparr>)))))
             \<lparr>displayNeedsFullRedraw := False\<rparr>"
    by (auto simp: main_pass_def bind_def split: sum.splits)
  let ?s2 = "s1\<lparr>buttonPressed := NONE\<rparr>"
  let ?s3 = "receiveStatus rx ?s2"
  let ?s4 = "tickLoop adc ?s3"
  from dispatch_frame [OF d] have k1: "kept s ?s2"
    by (auto simp: kept_def)
  have k3: "hexapodSoC ?s3 \<le>s hexapodSoC ?s2" "controllerSoC ?s3 = controllerSoC ?s2"
    "currentPage ?s3 = currentPage ?s2"
    "joystick_command_character ?s3 = joystick_command_character ?s2"
    by (rule receiveStatus_le, (rule receiveStatus_other)+)
  from tickLoop_other [of adc ?s3]
  have k4: "hexapodSoC ?s4 = hexapodSoC ?s3" "controllerSoC ?s4 \<le>s controllerSoC ?s3"
    "currentPage ?s4 = currentPage ?s3"
    "joystick_command_character ?s4 = joystick_command_character ?s3"
    by simp_all
  from render_kept [of ?s4] s' have k5: "kept ?s4 s'"
    by simp
  from k1 k3 k4 k5 show ?thesis
    by (simp add: kept_def)
qed

lemma step_soc:
  assumes "step adc e s = Inr s'"
  shows "hexapodSoC s' \<le>s hexapodSoC s \<and> controllerSoC s' \<le>s controllerSoC s
         \<and> currentPage s' = currentPage s
         \<and> joystick_command_character s' = joystick_command_character s"
proof (cases e)
  case Tick
  with assms show ?thesis by (auto simp: TIMER0_OVF_def)
next
  case (Poll touch)
  with assms have "TIMER1_OVF touch s = Inr s'" by simp
  from TIMER1_OVF_kept [OF this] show ?thesis by (simp add: kept_def)
next
  case (Pass rx)
  with assms have "main_pass adc rx s = Inr s'" by simp
  from main_pass_soc [OF this] show ?thesis .
qed

lemma run_soc:
  "run adc es s = Inr s' \<Longrightarrow>
   hexapodSoC s' \<le>s hexapodSoC s \<and> controllerSoC s' \<le>s controllerSoC s
   \<and> currentPage s' = currentPage s
   \<and> joystick_command_character s' = joystick_command_character s"
proof (induction es arbitrary: s)
  case Nil
  then show ?case by simp
next
  case (Cons e es)
  from Cons.prems obtain s1 where 1: "step adc e s = Inr s1" and 2: "run adc es s1 = Inr s'"
    by (auto simp: bind_def split: sum.splits)
  from step_soc [OF 1] Cons.IH [OF 2] show ?case
    by (auto simp: word_sle_eq)
qed

lemma command_character_constant:
  assumes "firmware adc es = Inr s"
  shows "joystick_command_character s = 99"
proof -
  from assms have "run adc es started = Inr s"
    by (simp add: firmware_def main_init_eq bind_def)
  from run_soc [OF this] show ?thesis by (simp add: started_fields)
qed

text \<open>
  C8. An inbound status byte replaces the hexapod estimate only if it is lower (as
  \<^verbatim>\<open>int\<close>) than the estimate held; the percentage computed from the battery sample
  replaces the controller estimate only if it is lower than the estimate held; and over
  any run of the firmware, from any state, neither estimate is higher at the end than at
  the start.
\<close>

theorem battery_never_increases:
  "hexapodSoC (receiveStatus (Some b) s)
     = (if ucast b <s hexapodSoC s then ucast b else hexapodSoC s)
   \<and> controllerSoC (cycle10Hz adc s)
     = (if battery_percentage (adc (adcReads s) V_BATT) <s controllerSoC s
        then battery_percentage (adc (adcReads s) V_BATT) else controllerSoC s)
   \<and> (run adc es s = Inr s' \<longrightarrow>
        hexapodSoC s' \<le>s hexapodSoC s \<and> controllerSoC s' \<le>s controllerSoC s)"
  using run_soc [of adc es s s']
  by (simp add: receiveStatus_hexapodSoC cycle10Hz_fields)

theorem battery_never_increases_witness:
  "\<exists>s'. run adc_centred [Pass (Some 90)] started = Inr s'
     \<and> hexapodSoC s' \<le>s hexapodSoC started \<and> controllerSoC s' \<le>s controllerSoC started
     \<and> hexapodSoC s' = 90"
proof -
  define s4 where "s4 = tickLoop adc_centred (receiveStatus (Some 90) (started\<lparr>buttonPressed := NONE\<rparr>))"
  define s' where "s' = (RenderSliders (RenderButtons s4))\<lparr>displayNeedsFullRedraw := False\<rparr>"
  have "dispatch started = Inr started"
    by (rule dispatch_other) (simp add: started_fields button_ids_def enum_defs)
  then have r: "run adc_centred [Pass (Some 90)] started = Inr s'"
    by (simp add: main_pass_def bind_def s'_def s4_def)
  from battery_never_increases [where adc = adc_centred and es = "[Pass (Some 90)]"
      and s = started and s' = s'] r
  have le: "hexapodSoC s' \<le>s hexapodSoC started" "controllerSoC s' \<le>s controllerSoC started"
    by blast+
  from render_kept [of s4] have "hexapodSoC s' = hexapodSoC s4"
    by (simp add: kept_def s'_def)
  also have "\<dots> = hexapodSoC (receiveStatus (Some 90) (started\<lparr>buttonPressed := NONE\<rparr>))"
    using tickLoop_other [of adc_centred "receiveStatus (Some 90) (started\<lparr>buttonPressed := NONE\<rparr>)"]
    by (simp add: s4_def)
  also have "\<dots> = 90"
    by (simp add: receiveStatus_hexapodSoC started_fields word_sless_alt)
  finally have "hexapodSoC s' = 90" .
  with r le show ?thesis by blast
qed

section \<open>Sliders\<close>

lemma le_32_signed:
  fixes w :: "16 word"
  shows "w \<le> 32 \<longleftrightarrow> 0 \<le> sint w \<and> sint w \<le> 32"
proof
  assume "w \<le> 32"
  then have u: "uint w \<le> 32" by (simp add: word_le_def)
  have lo: "- (2 ^ 15) \<le> uint w"
    by (rule order_trans [of _ 0]) simp_all
  have hi: "uint w < 2 ^ 15"
    using u by simp
  have "sint w = signed_take_bit 15 (uint w)" by (simp add: sint_uint)
  also have "\<dots> = uint w"
    by (rule signed_take_bit_int_eq_self [OF lo hi])
  finally show "0 \<le> sint w \<and> sint w \<le> 32" using u by simp
next
  assume s: "0 \<le> sint w \<and> sint w \<le> 32"
  have "uint w = take_bit 16 (sint w)" by (simp add: uint_sint)
  also have "\<dots> = sint w"
    using s by (simp add: take_bit_int_eq_self)
  finally show "w \<le> 32" using s by (simp add: word_le_def)
qed

lemma blank_hit:
  assumes "currentPage s = MAIN_PAGE"
  shows "SliderTouched s zero_Slider \<longleftrightarrow> touchX s = 0 \<and> touchY s \<le> 32"
  using assms by (auto simp: SliderTouched_def zero_Slider_def MAIN_PAGE_def)

lemma blank_percentage: "slider_percentage 0 zero_Slider = Inr 0"
  by (simp add: slider_percentage_def zero_Slider_def int_div_def signed_divide_int_def)

lemma clamp_percentage_0: "clamp_percentage 0 = 0"
  by (simp add: clamp_percentage_def word_sless_alt)

lemma blank_drag:
  assumes "blank s" and "n < 2"
  shows "dragSlider n s = Inr s"
proof (cases "SliderTouched s (sliders s ! n) \<and> sint (touchedSlider s) = int n")
  case False
  then show ?thesis by (auto simp: dragSlider_def Let_def)
next
  case True
  from assms have z: "sliders s ! n = zero_Slider"
    by (cases n) (auto simp: blank_def)
  with True assms have x: "touchX s = 0"
    by (simp add: blank_hit blank_def)
  have u: "(sliders s)[n := zero_Slider\<lparr>s_value := 0\<rparr>] = sliders s"
    using assms by (cases n) (auto simp: blank_def zero_Slider_def)
  from True z x have "dragSlider n s = Inr (s\<lparr>sliders := (sliders s)[n := zero_Slider\<lparr>s_value := 0\<rparr>]\<rparr>)"
    by (simp add: dragSlider_def Let_def bind_def blank_percentage clamp_percentage_0)
  then show ?thesis
    unfolding u by simp
qed

lemma blank_render:
  assumes "blank s" and "n < 2"
  shows "renderSlider n s = s"
proof -
  from assms have "sliders s ! n = zero_Slider"
    by (cases n) (auto simp: blank_def)
  then show ?thesis
    by (simp add: renderSlider_def Let_def zero_Slider_def)
qed

lemma blank_RenderSliders: "blank s \<Longrightarrow> RenderSliders s = s"
  by (simp add: RenderSliders_def upt_NUM_SLIDERS blank_render)

lemma blank_HandleTouchDown:
  assumes "blank s" and "HandleTouchDown x y s = Inr s'"
  shows "blank s'"
proof -
  let ?s = "s\<lparr>touchX := x, touchY := y\<rparr>"
  from assms(1) have b: "blank ?s" by (simp add: blank_def)
  show ?thesis
  proof (cases "touchTimer s = 3")
    case True
    then have "HandleTouchDown x y s
        = Inr (fold armSlider [0..<NUM_SLIDERS] (fold armButton [0..<NUM_BUTTONS] ?s))"
      by (simp add: HandleTouchDown_def)
    with assms(2) have "s' = fold armSlider [0..<NUM_SLIDERS] (fold armButton [0..<NUM_BUTTONS] ?s)"
      by simp
    then show ?thesis
      unfolding fold_armButton fold_armSlider using b by (simp add: blank_def)
  next
    case False
    show ?thesis
    proof (cases "3 <s touchTimer s")
      case True
      with False have "HandleTouchDown x y s = forEach [0..<NUM_SLIDERS] dragSlider ?s"
        by (simp add: HandleTouchDown_def)
      also have "\<dots> = Inr ?s"
        using b by (simp add: upt_NUM_SLIDERS bind_def blank_drag)
      finally show ?thesis using assms(2) b by simp
    next
      case nd: False
      with False have "HandleTouchDown x y s = Inr ?s"
        by (simp add: HandleTouchDown_def)
      with assms(2) b show ?thesis by simp
    qed
  qed
qed

lemma blank_TIMER1_OVF:
  assumes "blank s" and "TIMER1_OVF touch s = Inr s'"
  shows "blank s'"
proof (cases touch)
  case None
  with assms(2) obtain s1 where 1: "s1 = s \<or> HandleTouchUp s = Inr s1"
    and 2: "s' = s1\<lparr>touchTimer := 0, touchX := - 1, touchY := - 1\<rparr>"
    by (auto simp: TIMER1_OVF_def bind_def split: if_splits sum.splits)
  from 1 assms(1) have "blank s1"
    using HandleTouchUp_widgets [of s s1] HandleTouchUp_kept [of s s1]
    by (auto simp: blank_def kept_def)
  with 2 show ?thesis by (simp add: blank_def)
next
  case (Some p)
  obtain x y where p: "p = (x, y)" by (cases p)
  from assms(2) have h: "HandleTouchDown x y (s\<lparr>touchTimer := touchTimer s + 1\<rparr>) = Inr s'"
    by (simp add: TIMER1_OVF_def Some p)
  from assms(1) have "blank (s\<lparr>touchTimer := touchTimer s + 1\<rparr>)"
    by (simp add: blank_def)
  from blank_HandleTouchDown [OF this h] show ?thesis .
qed

lemma blank_main_pass:
  assumes "blank s" and "main_pass adc rx s = Inr s'"
  shows "blank s'"
proof -
  from assms(2) obtain s1 where d: "dispatch s = Inr s1"
    and s': "s' = (RenderSliders (RenderButtons
               (tickLoop adc (receiveStatus rx (s1\<lparr>buttonPressed := NONE\<rparr>)))))
             \<lparr>displayNeedsFullRedraw := False\<rparr>"
    by (auto simp: main_pass_def bind_def split: sum.splits)
  let ?s4 = "tickLoop adc (receiveStatus rx (s1\<lparr>buttonPressed := NONE\<rparr>))"
  from dispatch_frame [OF d] assms(1) have "blank (s1\<lparr>buttonPressed := NONE\<rparr>)"
    by (auto simp: blank_def)
  then have "blank ?s4"
    using tickLoop_other [of adc "receiveStatus rx (s1\<lparr>buttonPressed := NONE\<rparr>)"]
    by (simp add: blank_def receiveStatus_other)
  moreover from fold_renderButton_frame [of "[0..<NUM_BUTTONS]" ?s4] obtain bs
    where bs: "RenderButtons ?s4 = ?s4\<lparr>buttons := bs\<rparr>"
    by (auto simp: RenderButtons_def)
  ultimately have "blank (RenderButtons ?s4)"
    by (simp add: blank_def)
  then have "blank (RenderSliders (RenderButtons ?s4))"
    by (simp add: blank_RenderSliders)
  with s' show ?thesis by (simp add: blank_def)
qed

lemma blank_run: "blank s \<Longrightarrow> run adc es s = Inr s' \<Longrightarrow> blank s'"
proof (induction es arbitrary: s)
  case Nil
  then show ?case by simp
next
  case (Cons e es)
  from Cons.prems(2) obtain s1 where 1: "step adc e s = Inr s1" and 2: "run adc es s1 = Inr s'"
    by (auto simp: bind_def split: sum.splits)
  have "blank s1"
  proof (cases e)
    case Tick
    with 1 have "s1 = s\<lparr>ticks := ticks s + 1\<rparr>" by (simp add: TIMER0_OVF_def)
    with Cons.prems(1) show ?thesis by (simp add: blank_def)
  next
    case (Poll touch)
    with 1 have "TIMER1_OVF touch s = Inr s1" by simp
    from blank_TIMER1_OVF [OF Cons.prems(1) this] show ?thesis .
  next
    case (Pass rx)
    with 1 have "main_pass adc rx s = Inr s1" by simp
    from blank_main_pass [OF Cons.prems(1) this] show ?thesis .
  qed
  from Cons.IH [OF this 2] show ?case .
qed

lemma blank_started: "blank started"
  by (simp add: blank_def started_fields)

text \<open>
  C9. \<^verbatim>\<open>main\<close> initialises the buttons only. When the main loop is entered every slider has
  all fields zero, and in every state the firmware reaches (without a fault) every slider
  still has all fields zero, in particular width 0, so that the hit test of a slider
  passes exactly when \<^verbatim>\<open>touchX\<close> is 0 and \<^verbatim>\<open>touchY\<close> is between 0 and 32.
\<close>

theorem sliders_stay_blank:
  assumes "firmware adc es = Inr s"
  shows "main_init = Inr started
     \<and> sliders started = replicate NUM_SLIDERS zero_Slider
     \<and> zero_Slider = \<lparr>s_x = 0, s_y = 0, s_width = 0, s_colour = 0, s_value = 0, oldValue = 0, s_page = 0\<rparr>
     \<and> sliders s = replicate NUM_SLIDERS zero_Slider
     \<and> (\<forall>n < NUM_SLIDERS. s_width (sliders s ! n) = 0
           \<and> (SliderTouched s (sliders s ! n)
                \<longleftrightarrow> touchX s = 0 \<and> 0 \<le> sint (touchY s) \<and> sint (touchY s) \<le> 32))"
proof -
  from assms have "run adc es started = Inr s"
    by (simp add: firmware_def main_init_eq bind_def)
  from blank_run [OF blank_started this] have b: "blank s" .
  then have all: "\<forall>n < NUM_SLIDERS. sliders s ! n = zero_Slider"
    by (simp add: blank_def NUM_SLIDERS_def less_Suc_eq numeral_2_eq_2)
  from b have "currentPage s = MAIN_PAGE" by (simp add: blank_def)
  from blank_hit [OF this] all
  have "\<forall>n < NUM_SLIDERS. s_width (sliders s ! n) = 0
           \<and> (SliderTouched s (sliders s ! n)
                \<longleftrightarrow> touchX s = 0 \<and> 0 \<le> sint (touchY s) \<and> sint (touchY s) \<le> 32)"
    by (simp add: zero_Slider_def le_32_signed)
  with b show ?thesis
    by (simp add: main_init_eq started_fields blank_def NUM_SLIDERS_def numeral_2_eq_2 zero_Slider_def)
qed

theorem sliders_stay_blank_witness:
  "\<exists>s. firmware adc_centred [Tick, Poll (Some (0, 10))] = Inr s
     \<and> sliders s = replicate NUM_SLIDERS zero_Slider
     \<and> s_width (sliders s ! 1) = 0 \<and> SliderTouched s (sliders s ! 1)"
proof -
  define s where "s = started\<lparr>ticks := 1, touchTimer := 1, touchX := 0, touchY := 10\<rparr>"
  have r: "firmware adc_centred [Tick, Poll (Some (0, 10))] = Inr s"
    by (simp add: firmware_def main_init_eq bind_def TIMER0_OVF_def poll_early started_fields s_def)
  from sliders_stay_blank [OF r]
  have sl: "sliders s = replicate NUM_SLIDERS zero_Slider"
    and a: "\<forall>n < NUM_SLIDERS. s_width (sliders s ! n) = 0
              \<and> (SliderTouched s (sliders s ! n)
                   \<longleftrightarrow> touchX s = 0 \<and> 0 \<le> sint (touchY s) \<and> sint (touchY s) \<le> 32)"
    by blast+
  have "1 < NUM_SLIDERS"
    by (simp add: NUM_SLIDERS_def)
  with a have "s_width (sliders s ! 1) = 0
         \<and> (SliderTouched s (sliders s ! 1)
              \<longleftrightarrow> touchX s = 0 \<and> 0 \<le> sint (touchY s) \<and> sint (touchY s) \<le> 32)"
    by blast
  moreover have "touchX s = 0 \<and> 0 \<le> sint (touchY s) \<and> sint (touchY s) \<le> 32"
    by (simp add: s_def)
  ultimately show ?thesis using r sl by blast
qed

lemma spec_values:
  "spec_slider_value 0 0 0 = 50" "spec_slider_value 60 160 200 = 0"
  "spec_slider_value 180 160 40 = 100"
  by (simp_all add: spec_slider_value_def signed_divide_int_def)

lemma init_wide:
  "InitialiseSlider 0 160 100 200 BLUE 50 MAIN_PAGE (started\<lparr>touchTimer := 4, touchedSlider := 0\<rparr>)
     = Inr (started\<lparr>touchTimer := 4, touchedSlider := 0, sliders := [wide_slider, zero_Slider]\<rparr>)"
  by (simp add: InitialiseSlider_def slider_upd_def started_fields wide_slider_def zero_Slider_def
      NUM_SLIDERS_def)

lemma init_narrow:
  "InitialiseSlider 0 160 100 40 BLUE 50 MAIN_PAGE (started\<lparr>touchTimer := 4, touchedSlider := 0\<rparr>)
     = Inr (started\<lparr>touchTimer := 4, touchedSlider := 0, sliders := [narrow_slider, zero_Slider]\<rparr>)"
  by (simp add: InitialiseSlider_def slider_upd_def started_fields narrow_slider_def zero_Slider_def
      NUM_SLIDERS_def)

lemma percentage_wide: "slider_percentage 60 wide_slider = Inr 95"
  by (simp add: slider_percentage_def wide_slider_def int_div_def signed_divide_int_def)

lemma percentage_narrow: "slider_percentage 180 narrow_slider = Inr 133"
  by (simp add: slider_percentage_def narrow_slider_def int_div_def signed_divide_int_def)

lemma clamp_values: "clamp_percentage 95 = 95" "clamp_percentage 133 = 0"
  by (simp_all add: clamp_percentage_def word_sless_alt)


lemma clamp_percentage_range:
  "0 \<le> sint (clamp_percentage v) \<and> sint (clamp_percentage v) \<le> 100"
  by (simp add: clamp_percentage_def Let_def word_sless_alt)

lemma drag_example:
  assumes sl: "sliders s = [slider, zero_Slider]" and page: "currentPage s = MAIN_PAGE"
    and t: "touchTimer s = 4" "touchedSlider s = 0"
    and hit: "SliderTouched (s\<lparr>touchTimer := 5, touchX := x, touchY := y\<rparr>) slider"
    and x: "x \<noteq> 0"
    and v: "slider_percentage x slider = Inr v"
  shows "\<exists>s'. TIMER1_OVF (Some (x, y)) s = Inr s' \<and> touchTimer s' = 5
           \<and> sliders s' = [slider\<lparr>s_value := clamp_percentage v\<rparr>, zero_Slider]"
proof -
  let ?s = "s\<lparr>touchTimer := 5, touchX := x, touchY := y\<rparr>"
  let ?s1 = "?s\<lparr>sliders := [slider\<lparr>s_value := clamp_percentage v\<rparr>, zero_Slider]\<rparr>"
  have 0: "dragSlider 0 ?s = Inr ?s1"
    using sl t hit v by (simp add: dragSlider_def Let_def bind_def)
  have "\<not> SliderTouched ?s1 zero_Slider"
    using x page by (simp add: blank_hit)
  then have 1: "dragSlider 1 ?s1 = Inr ?s1"
    by (simp add: dragSlider_def Let_def)
  have "TIMER1_OVF (Some (x, y)) s = forEach [0..<NUM_SLIDERS] dragSlider ?s"
    using t by (simp add: TIMER1_OVF_def HandleTouchDown_def Let_def word_sless_alt)
  also have "\<dots> = Inr ?s1"
    by (simp add: upt_NUM_SLIDERS bind_def 0 1 del: One_nat_def)
  finally show ?thesis by simp
qed

lemma drag_after_start:
  "\<exists>s. firmware adc_centred
          [Poll (Some (0, 10)), Poll (Some (0, 10)), Poll (Some (0, 10)), Poll (Some (0, 10))] = Inr s
     \<and> touchTimer s = 4 \<and> touchedSlider s = 1 \<and> touchX s = 0
     \<and> SliderTouched s (sliders s ! 1) \<and> sliders s ! 1 = zero_Slider"
proof -
  let ?s1 = "started\<lparr>touchTimer := 1, touchX := 0, touchY := 10\<rparr>"
  let ?s2 = "started\<lparr>touchTimer := 2, touchX := 0, touchY := 10\<rparr>"
  let ?s3 = "started\<lparr>touchTimer := 3, touchX := 0, touchY := 10\<rparr>"
  let ?s3a = "?s3\<lparr>touchedSlider := 1\<rparr>"
  let ?s4 = "?s3a\<lparr>touchTimer := 4, touchX := 0, touchY := 10\<rparr>"
  have 1: "TIMER1_OVF (Some (0, 10)) started = Inr ?s1"
    by (simp add: poll_early started_fields)
  have 2: "TIMER1_OVF (Some (0, 10)) ?s1 = Inr ?s2"
    by (simp add: poll_early)
  have b: "filter (\<lambda>n. ButtonTouched ?s3 (buttons ?s3 ! n)) [0..<NUM_BUTTONS] = []"
    by (rule hits_started_0_10) (simp_all add: started_fields)
  have ab: "fold armButton [0..<NUM_BUTTONS] ?s3 = ?s3"
    unfolding fold_armButton b by simp
  have sl: "filter (\<lambda>n. SliderTouched ?s3 (sliders ?s3 ! n)) [0..<NUM_SLIDERS] = [0, 1]"
    by (rule hits_started_0_10) (simp_all add: started_fields)
  have "fold armSlider [0..<NUM_SLIDERS] ?s3 = ?s3a"
    unfolding fold_armSlider sl by simp
  with ab have 3: "TIMER1_OVF (Some (0, 10)) ?s2 = Inr ?s3a"
    by (simp add: poll_settle)
  have bl: "blank ?s4"
    by (simp add: blank_def started_fields)
  have "TIMER1_OVF (Some (0, 10)) ?s3a = forEach [0..<NUM_SLIDERS] dragSlider ?s4"
    by (simp add: TIMER1_OVF_def HandleTouchDown_def Let_def word_sless_alt)
  also have "\<dots> = Inr ?s4"
    using bl by (simp add: upt_NUM_SLIDERS bind_def blank_drag)
  finally have 4: "TIMER1_OVF (Some (0, 10)) ?s3a = Inr ?s4" .
  have r: "firmware adc_centred
          [Poll (Some (0, 10)), Poll (Some (0, 10)), Poll (Some (0, 10)), Poll (Some (0, 10))] = Inr ?s4"
    by (simp add: firmware_def main_init_eq bind_def 1 2 3 4)
  have "touchTimer ?s4 = 4 \<and> touchedSlider ?s4 = 1 \<and> touchX ?s4 = 0
     \<and> SliderTouched ?s4 (sliders ?s4 ! 1) \<and> sliders ?s4 ! 1 = zero_Slider"
    by (simp add: started_fields SliderTouched_def zero_Slider_def MAIN_PAGE_def)
  with r show ?thesis by blast
qed

text \<open>
  C6. The claim fails on the code. The code computes the percentage on unsigned 16-bit
  values and stores it in a signed 8-bit field before it clamps. A slider at x = 160 of
  width 200, touched at x = 60 (the left end of its hit region), gets the value 95, where
  the conversion on the integers gives 0. A slider of width 40, touched at x = 180 (the
  right end of its hit region), gets 0, where the conversion on the integers gives 100.
  In the firmware as it starts, a touch held at (0, 10) for four polls arms slider 1 and
  drags it; the code computes 0, where the conversion on the integers gives 50.
\<close>

theorem drag_value_differs:
  "(\<exists>s'. TIMER1_OVF (Some (60, 110))
            (started\<lparr>touchTimer := 4, touchedSlider := 0, sliders := [wide_slider, zero_Slider]\<rparr>) = Inr s'
          \<and> touchTimer s' = 5 \<and> sint (s_value (sliders s' ! 0)) = 95)
   \<and> spec_slider_value 60 160 200 = 0
   \<and> (\<exists>s'. TIMER1_OVF (Some (180, 110))
            (started\<lparr>touchTimer := 4, touchedSlider := 0, sliders := [narrow_slider, zero_Slider]\<rparr>) = Inr s'
          \<and> touchTimer s' = 5 \<and> sint (s_value (sliders s' ! 0)) = 0)
   \<and> spec_slider_value 180 160 40 = 100
   \<and> (\<exists>s. firmware adc_centred
          [Poll (Some (0, 10)), Poll (Some (0, 10)), Poll (Some (0, 10)), Poll (Some (0, 10))] = Inr s
        \<and> touchTimer s = 4 \<and> touchedSlider s = 1 \<and> touchX s = 0
        \<and> SliderTouched s (sliders s ! 1) \<and> sliders s ! 1 = zero_Slider)
   \<and> slider_percentage 0 zero_Slider = Inr 0 \<and> clamp_percentage 0 = 0
   \<and> spec_slider_value 0 0 0 = 50"
proof -
  let ?w = "started\<lparr>touchTimer := 4, touchedSlider := 0, sliders := [wide_slider, zero_Slider]\<rparr>"
  let ?n = "started\<lparr>touchTimer := 4, touchedSlider := 0, sliders := [narrow_slider, zero_Slider]\<rparr>"
  have "\<exists>s'. TIMER1_OVF (Some (60, 110)) ?w = Inr s' \<and> touchTimer s' = 5
          \<and> sliders s' = [wide_slider\<lparr>s_value := clamp_percentage 95\<rparr>, zero_Slider]"
  proof (rule drag_example [OF _ _ _ _ _ _ percentage_wide])
    show "SliderTouched (?w\<lparr>touchTimer := 5, touchX := 60, touchY := 110\<rparr>) wide_slider"
      by (simp add: started_fields SliderTouched_def wide_slider_def)
  qed (simp_all add: started_fields)
  then have w: "\<exists>s'. TIMER1_OVF (Some (60, 110)) ?w = Inr s' \<and> touchTimer s' = 5
          \<and> sint (s_value (sliders s' ! 0)) = 95"
    by (auto simp: clamp_values)
  have "\<exists>s'. TIMER1_OVF (Some (180, 110)) ?n = Inr s' \<and> touchTimer s' = 5
          \<and> sliders s' = [narrow_slider\<lparr>s_value := clamp_percentage 133\<rparr>, zero_Slider]"
  proof (rule drag_example [OF _ _ _ _ _ _ percentage_narrow])
    show "SliderTouched (?n\<lparr>touchTimer := 5, touchX := 180, touchY := 110\<rparr>) narrow_slider"
      by (simp add: started_fields SliderTouched_def narrow_slider_def)
  qed (simp_all add: started_fields)
  then have n: "\<exists>s'. TIMER1_OVF (Some (180, 110)) ?n = Inr s' \<and> touchTimer s' = 5
          \<and> sint (s_value (sliders s' ! 0)) = 0"
    by (auto simp: clamp_values)
  from w n drag_after_start show ?thesis
    by (simp only: spec_values blank_percentage clamp_percentage_0 simp_thms)
qed

end
